theory Spec2Isabelle
  imports Complex_Main "HOL-Library.Word"
begin

section \<open>Values read from and written to a table\<close>

text \<open>
  A JavaScript number, as far as the filter observes it: the comparisons \<open>===\<close>,
  \<open><\<close>, \<open><=\<close>, \<open>>\<close>, \<open>>=\<close>. Every finite double is a rational, and the
  comparisons of doubles are the comparisons of those rationals; \<open>NaN\<close> compares false
  with everything, itself included.
\<close>

datatype jsnum = NaN | NegInf | Fin rat | PosInf

fun num_lt :: "jsnum \<Rightarrow> jsnum \<Rightarrow> bool" where
  "num_lt NaN _ = False"
| "num_lt _ NaN = False"
| "num_lt (Fin x) (Fin y) = (x < y)"
| "num_lt NegInf NegInf = False"
| "num_lt NegInf _ = True"
| "num_lt _ NegInf = False"
| "num_lt PosInf _ = False"
| "num_lt _ PosInf = True"

definition num_eq :: "jsnum \<Rightarrow> jsnum \<Rightarrow> bool" where
  "num_eq a b = (a \<noteq> NaN \<and> a = b)"

definition num_le :: "jsnum \<Rightarrow> jsnum \<Rightarrow> bool" where
  "num_le a b = (num_lt a b \<or> num_eq a b)"

text \<open>
  What a getter of a binary row returns: a number for a numeric column, a ByteString
  (its bytes) for a text column.
\<close>

datatype cell = Number jsnum | Bytes string

datatype error = TypeError | IndexOutOfBounds

datatype ColumnType = Int8 | Uint8 | Int16 | Uint16 | Int32 | Uint32 | Float32 | ByteString

record Column =
  name :: string
  ctype :: ColumnType

text \<open>
  A table in binary memory: the header's columns in memory order, the header's
  \<open>rowCount\<close> field (an unsigned 32-bit integer) and the row data, addressed by row
  index and column index. Row data exists beyond \<open>rowCount\<close> too (the memory is there
  and is not cleared), so \<open>cells\<close> is a total function.
\<close>

record Table =
  columns :: "Column list"
  rowCount :: "32 word"
  cells :: "nat \<Rightarrow> nat \<Rightarrow> cell"

text \<open>
  Modelled from the spec: \<open>Row.names\<close> (the Row class is not among the sources), the
  map from a column's name to its index in memory order. A name that is no column is
  \<open>undefined\<close> in the source; here \<open>None\<close>.
\<close>

definition names :: "Table \<Rightarrow> string \<Rightarrow> nat option" where
  "names t = map_of (zip (map name (columns t)) [0..<length (columns t)])"

section \<open>What the sources use and do not define\<close>

text \<open>
  A rule's comparison value on the wire: one string, or an array of strings for
  \<open>in\<close> and \<open>notIn\<close>.
\<close>

datatype rvalue = Single string | Many "string list"

text \<open>
  The value of a result description's \<open>as\<close> field, which the writer tests for
  truthiness: absent (\<open>undefined\<close>), \<open>null\<close>, a boolean, a number or a string.
\<close>

datatype jsval = Undefined | Null | Boolean bool | Num jsnum | Str string

fun truthy :: "jsval \<Rightarrow> bool" where
  "truthy Undefined = False"
| "truthy Null = False"
| "truthy (Boolean b) = b"
| "truthy (Num n) = (n \<noteq> NaN \<and> n \<noteq> Fin 0)"
| "truthy (Str s) = (s \<noteq> [])"

text \<open>
  The JavaScript built-ins and the methods of ByteString and of the Row accessors that
  the sources call and do not define are parameters of the model:
  \<^item> \<open>parseFloat\<close>: the built-in, on a string;
  \<^item> \<open>fromString\<close>: \<open>ByteString.fromString\<close>, on a rule's value (it may raise);
  \<^item> \<open>equalsCase\<close>, \<open>containsCase\<close>: the two ByteString methods;
  \<^item> \<open>toNumber\<close>: the number a ByteString is coerced to by a relational operator;
  \<^item> \<open>propertyKey\<close>: the property key a number is converted to;
  \<^item> \<open>stored\<close>: what a column of a given type holds after its setter was given a
    value (what its getter returns next);
  \<^item> \<open>deserializeTable\<close>: the function of \<open>utils/Serializer\<close>, from the descriptor
    a message carries (the address and the size of the table's bytes in the shared
    buffer) to the table; it may raise.
\<close>

datatype TableSerialized = TableDescriptor nat nat

record builtins =
  parseFloat :: "string \<Rightarrow> jsnum"
  fromString :: "rvalue \<Rightarrow> error + string"
  equalsCase :: "string \<Rightarrow> string \<Rightarrow> bool"
  containsCase :: "string \<Rightarrow> string \<Rightarrow> bool"
  toNumber :: "string \<Rightarrow> jsnum"
  propertyKey :: "jsnum \<Rightarrow> string"
  stored :: "ColumnType \<Rightarrow> cell \<Rightarrow> cell"
  deserializeTable :: "TableSerialized \<Rightarrow> error + Table"

text \<open>\<open>String(v)\<close> of a rule's value: an array of strings is joined with commas.\<close>

fun join_commas :: "string list \<Rightarrow> string" where
  "join_commas [] = []"
| "join_commas [s] = s"
| "join_commas (s # ss) = s @ '','' @ join_commas ss"

fun jsString :: "rvalue \<Rightarrow> string" where
  "jsString (Single s) = s"
| "jsString (Many ss) = join_commas ss"

text \<open>
  \<open>x.equalsCase(v)\<close> and \<open>x.containsCase(v)\<close> where \<open>x\<close> is what a getter returned:
  a number has no such method, and the call raises a TypeError.
\<close>

fun call_equalsCase :: "builtins \<Rightarrow> cell \<Rightarrow> string \<Rightarrow> error + bool" where
  "call_equalsCase env (Bytes b) v = Inr (equalsCase env b v)"
| "call_equalsCase env (Number n) v = Inl TypeError"

fun call_containsCase :: "builtins \<Rightarrow> cell \<Rightarrow> string \<Rightarrow> error + bool" where
  "call_containsCase env (Bytes b) v = Inr (containsCase env b v)"
| "call_containsCase env (Number n) v = Inl TypeError"

text \<open>\<open>x === v\<close> with \<open>v\<close> a number: a ByteString object is never strictly equal to it.\<close>

fun strict_eq :: "cell \<Rightarrow> jsnum \<Rightarrow> bool" where
  "strict_eq (Number a) v = num_eq a v"
| "strict_eq (Bytes b) v = False"

text \<open>The number a relational operator compares, for what a getter returned.\<close>

fun relational :: "builtins \<Rightarrow> cell \<Rightarrow> jsnum" where
  "relational env (Number a) = a"
| "relational env (Bytes b) = toNumber env b"

section \<open>FilterProcessor: compiling a rule\<close>

datatype FilterOperation =
    op_contains | op_notContains | op_in | op_notIn | op_equal | op_notEqual
  | op_greaterThan | op_greaterThanOrEqual | op_lessThan | op_lessThanOrEqual
  | op_unknown string

record FilterRule =
  field :: string
  operation :: FilterOperation
  rule_value :: rvalue

text \<open>
  A compiled tester is a closure over the shared Row: it reads the row the Row's
  \<open>index\<close> points at when it is called. The argument of a tester is that index.
  A tester returns a boolean or raises.
\<close>

type_synonym tester = "nat \<Rightarrow> error + bool"

type_synonym getter = "nat \<Rightarrow> cell"

text \<open>
  The loop of \<open>filterIn\<close> and \<open>filterNotIn\<close>:
  \<^verbatim>\<open>for (i = 0; i < n; ++i) { if (match(i)) { return found; } } return !found;\<close>
  The counter \<open>i\<close> is a variable of the enclosing closure, so the loop leaves in it the
  index it stopped at; the model returns it beside the result.
\<close>

function valuesLoop :: "(nat \<Rightarrow> error + bool) \<Rightarrow> nat \<Rightarrow> bool \<Rightarrow> nat \<Rightarrow> error + (nat \<times> bool)" where
  "valuesLoop matches n found i =
     (if i < n then
        (case matches i of
           Inl e \<Rightarrow> Inl e
         | Inr b \<Rightarrow> if b then Inr (i, found) else valuesLoop matches n found (Suc i))
      else Inr (i, \<not> found))"
  by pat_completeness auto
termination
  by (relation "measure (\<lambda>(matches, n, found, i). n - i)") auto

definition result_of :: "error + (nat \<times> bool) \<Rightarrow> error + bool" where
  "result_of x = (case x of Inl e \<Rightarrow> Inl e | Inr (i, b) \<Rightarrow> Inr b)"

definition filterContains :: "builtins \<Rightarrow> getter \<Rightarrow> string \<Rightarrow> tester" where
  "filterContains env getter v r = call_containsCase env (getter r) v"

definition filterNotContains :: "builtins \<Rightarrow> getter \<Rightarrow> string \<Rightarrow> tester" where
  "filterNotContains env getter v r =
     (case call_containsCase env (getter r) v of Inl e \<Rightarrow> Inl e | Inr b \<Rightarrow> Inr (\<not> b))"

definition filterIn_ByteString :: "builtins \<Rightarrow> getter \<Rightarrow> string list \<Rightarrow> tester" where
  "filterIn_ByteString env getter vs r =
     result_of (valuesLoop (\<lambda>i. call_equalsCase env (getter r) (vs ! i)) (length vs) True 0)"

definition filterIn :: "getter \<Rightarrow> jsnum list \<Rightarrow> tester" where
  "filterIn getter vs r =
     result_of (valuesLoop (\<lambda>i. Inr (strict_eq (getter r) (vs ! i))) (length vs) True 0)"

definition filterNotIn_ByteString :: "builtins \<Rightarrow> getter \<Rightarrow> string list \<Rightarrow> tester" where
  "filterNotIn_ByteString env getter vs r =
     result_of (valuesLoop (\<lambda>i. call_equalsCase env (getter r) (vs ! i)) (length vs) False 0)"

definition filterNotIn :: "getter \<Rightarrow> jsnum list \<Rightarrow> tester" where
  "filterNotIn getter vs r =
     result_of (valuesLoop (\<lambda>i. Inr (strict_eq (getter r) (vs ! i))) (length vs) False 0)"

definition filterEquals_ByteString :: "builtins \<Rightarrow> getter \<Rightarrow> string \<Rightarrow> tester" where
  "filterEquals_ByteString env getter v r = call_equalsCase env (getter r) v"

definition filterEquals :: "getter \<Rightarrow> jsnum \<Rightarrow> tester" where
  "filterEquals getter v r = Inr (strict_eq (getter r) v)"

definition filterNotEqual_ByteString :: "builtins \<Rightarrow> getter \<Rightarrow> string \<Rightarrow> tester" where
  "filterNotEqual_ByteString env getter v r =
     (case call_equalsCase env (getter r) v of Inl e \<Rightarrow> Inl e | Inr b \<Rightarrow> Inr (\<not> b))"

definition filterNotEqual :: "getter \<Rightarrow> jsnum \<Rightarrow> tester" where
  "filterNotEqual getter v r = Inr (\<not> strict_eq (getter r) v)"

text \<open>
  The four relational testers, under the operation each is compiled for (the source
  names the closure of \<open>greaterThan\<close> \<open>filterMoreThanOrEqual\<close> and that of
  \<open>greaterThanOrEqual\<close> \<open>filterMoreThan\<close>; the comparisons are these).
\<close>

definition filterGreaterThan :: "builtins \<Rightarrow> getter \<Rightarrow> jsnum \<Rightarrow> tester" where
  "filterGreaterThan env getter v r = Inr (num_lt v (relational env (getter r)))"

definition filterGreaterThanOrEqual :: "builtins \<Rightarrow> getter \<Rightarrow> jsnum \<Rightarrow> tester" where
  "filterGreaterThanOrEqual env getter v r = Inr (num_le v (relational env (getter r)))"

definition filterLessThan :: "builtins \<Rightarrow> getter \<Rightarrow> jsnum \<Rightarrow> tester" where
  "filterLessThan env getter v r = Inr (num_lt (relational env (getter r)) v)"

definition filterLessThanOrEqual :: "builtins \<Rightarrow> getter \<Rightarrow> jsnum \<Rightarrow> tester" where
  "filterLessThanOrEqual env getter v r = Inr (num_le (relational env (getter r)) v)"

text \<open>
  \<open>rule.value.map(v => ...)\<close>: a string has no \<open>map\<close>, so the call raises a TypeError;
  on an array, the conversion of each element in order (the first that raises ends it).
\<close>

fun collect :: "('a \<Rightarrow> error + 'b) \<Rightarrow> 'a list \<Rightarrow> error + 'b list" where
  "collect f [] = Inr []"
| "collect f (x # xs) =
     (case f x of
        Inl e \<Rightarrow> Inl e
      | Inr y \<Rightarrow> (case collect f xs of Inl e \<Rightarrow> Inl e | Inr ys \<Rightarrow> Inr (y # ys)))"

fun value_map :: "(string \<Rightarrow> error + 'b) \<Rightarrow> rvalue \<Rightarrow> error + 'b list" where
  "value_map f (Single s) = Inl TypeError"
| "value_map f (Many ss) = collect f ss"

text \<open>
  \<open>_generateRuleTester\<close>. The accessor of a field that is no column is \<open>undefined\<close>,
  and reading its \<open>getter\<close> raises a TypeError, before the operation is looked at.
  An operation outside the ten cases leaves the \<open>switch\<close> and the function returns
  \<open>null\<close>: \<open>Inr None\<close>.
\<close>

definition generateRuleTester :: "builtins \<Rightarrow> Table \<Rightarrow> FilterRule \<Rightarrow> error + tester option" where
  "generateRuleTester env t rule =
     (case names t (field rule) of
        None \<Rightarrow> Inl TypeError
      | Some k \<Rightarrow>
          let column = columns t ! k;
              getter = (\<lambda>r. cells t r k)
          in
          (case operation rule of
             op_contains \<Rightarrow>
               (case fromString env (rule_value rule) of
                  Inl e \<Rightarrow> Inl e
                | Inr v \<Rightarrow> Inr (Some (filterContains env getter v)))
           | op_notContains \<Rightarrow>
               (case fromString env (rule_value rule) of
                  Inl e \<Rightarrow> Inl e
                | Inr v \<Rightarrow> Inr (Some (filterNotContains env getter v)))
           | op_in \<Rightarrow>
               if ctype column = ByteString then
                 (case value_map (\<lambda>v. fromString env (Single v)) (rule_value rule) of
                    Inl e \<Rightarrow> Inl e
                  | Inr vs \<Rightarrow> Inr (Some (filterIn_ByteString env getter vs)))
               else
                 (case value_map (\<lambda>v. Inr (parseFloat env v)) (rule_value rule) of
                    Inl e \<Rightarrow> Inl e
                  | Inr vs \<Rightarrow> Inr (Some (filterIn getter vs)))
           | op_notIn \<Rightarrow>
               if ctype column = ByteString then
                 (case value_map (\<lambda>v. fromString env (Single v)) (rule_value rule) of
                    Inl e \<Rightarrow> Inl e
                  | Inr vs \<Rightarrow> Inr (Some (filterNotIn_ByteString env getter vs)))
               else
                 (case value_map (\<lambda>v. Inr (parseFloat env v)) (rule_value rule) of
                    Inl e \<Rightarrow> Inl e
                  | Inr vs \<Rightarrow> Inr (Some (filterNotIn getter vs)))
           | op_equal \<Rightarrow>
               if ctype column = ByteString then
                 (case fromString env (rule_value rule) of
                    Inl e \<Rightarrow> Inl e
                  | Inr v \<Rightarrow> Inr (Some (filterEquals_ByteString env getter v)))
               else Inr (Some (filterEquals getter (parseFloat env (jsString (rule_value rule)))))
           | op_notEqual \<Rightarrow>
               if ctype column = ByteString then
                 (case fromString env (rule_value rule) of
                    Inl e \<Rightarrow> Inl e
                  | Inr v \<Rightarrow> Inr (Some (filterNotEqual_ByteString env getter v)))
               else Inr (Some (filterNotEqual getter (parseFloat env (jsString (rule_value rule)))))
           | op_greaterThan \<Rightarrow>
               Inr (Some (filterGreaterThan env getter (parseFloat env (jsString (rule_value rule)))))
           | op_greaterThanOrEqual \<Rightarrow>
               Inr (Some (filterGreaterThanOrEqual env getter (parseFloat env (jsString (rule_value rule)))))
           | op_lessThan \<Rightarrow>
               Inr (Some (filterLessThan env getter (parseFloat env (jsString (rule_value rule)))))
           | op_lessThanOrEqual \<Rightarrow>
               Inr (Some (filterLessThanOrEqual env getter (parseFloat env (jsString (rule_value rule)))))
           | op_unknown s \<Rightarrow> Inr None))"

section \<open>FilterProcessor: compiling a clause and an expression\<close>

datatype FilterExpressionMode = DNF | disjunctiveNormalForm | CNF | conjunctiveNormalForm

text \<open>\<open>testers[i]()\<close>: calling \<open>null\<close> raises a TypeError.\<close>

fun call :: "tester option \<Rightarrow> tester" where
  "call None r = Inl TypeError"
| "call (Some f) r = f r"

fun ruleTesterDNF :: "tester option list \<Rightarrow> tester" where
  "ruleTesterDNF [] r = Inr True"
| "ruleTesterDNF (t # ts) r =
     (case call t r of
        Inl e \<Rightarrow> Inl e
      | Inr b \<Rightarrow> if \<not> b then Inr False else ruleTesterDNF ts r)"

fun ruleTesterCNF :: "tester option list \<Rightarrow> tester" where
  "ruleTesterCNF [] r = Inr False"
| "ruleTesterCNF (t # ts) r =
     (case call t r of
        Inl e \<Rightarrow> Inl e
      | Inr b \<Rightarrow> if b then Inr True else ruleTesterCNF ts r)"

definition generateClauseTester ::
  "builtins \<Rightarrow> Table \<Rightarrow> FilterRule list \<Rightarrow> FilterExpressionMode \<Rightarrow> error + tester" where
  "generateClauseTester env t clause mode =
     (case collect (generateRuleTester env t) clause of
        Inl e \<Rightarrow> Inl e
      | Inr testers \<Rightarrow>
          if mode = DNF \<or> mode = disjunctiveNormalForm
          then Inr (ruleTesterDNF testers)
          else Inr (ruleTesterCNF testers))"

definition filterTesterEmpty :: tester where
  "filterTesterEmpty r = Inr True"

fun filterTesterDNF :: "tester list \<Rightarrow> tester" where
  "filterTesterDNF [] r = Inr False"
| "filterTesterDNF (t # ts) r =
     (case t r of
        Inl e \<Rightarrow> Inl e
      | Inr b \<Rightarrow> if b then Inr True else filterTesterDNF ts r)"

fun filterTesterCNF :: "tester list \<Rightarrow> tester" where
  "filterTesterCNF [] r = Inr True"
| "filterTesterCNF (t # ts) r =
     (case t r of
        Inl e \<Rightarrow> Inl e
      | Inr b \<Rightarrow> if \<not> b then Inr False else filterTesterCNF ts r)"

text \<open>
  \<open>_generateExpressionTester\<close>. The expression may be absent (\<open>None\<close>); the guard
  \<open>!expression || !expression.length\<close> answers an absent and an empty expression with
  \<open>filterTesterEmpty\<close>, whatever the mode.
\<close>

definition generateExpressionTester ::
  "builtins \<Rightarrow> Table \<Rightarrow> FilterRule list list option \<Rightarrow> FilterExpressionMode \<Rightarrow> error + tester" where
  "generateExpressionTester env t expression mode =
     (case expression of
        None \<Rightarrow> Inr filterTesterEmpty
      | Some [] \<Rightarrow> Inr filterTesterEmpty
      | Some (c # cs) \<Rightarrow>
          (case collect (\<lambda>clause. generateClauseTester env t clause mode) (c # cs) of
             Inl e \<Rightarrow> Inl e
           | Inr testers \<Rightarrow>
               if mode = DNF \<or> mode = disjunctiveNormalForm
               then Inr (filterTesterDNF testers)
               else Inr (filterTesterCNF testers)))"

text \<open>
  The outcome of a rule on the row at index \<open>r\<close>: its tester is compiled and called.
  Likewise for a clause.
\<close>

definition rule_result :: "builtins \<Rightarrow> Table \<Rightarrow> FilterRule \<Rightarrow> nat \<Rightarrow> error + bool" where
  "rule_result env t rule r =
     (case generateRuleTester env t rule of Inl e \<Rightarrow> Inl e | Inr f \<Rightarrow> call f r)"

definition clause_result ::
  "builtins \<Rightarrow> Table \<Rightarrow> FilterExpressionMode \<Rightarrow> FilterRule list \<Rightarrow> nat \<Rightarrow> error + bool" where
  "clause_result env t mode clause r =
     (case generateClauseTester env t clause mode of Inl e \<Rightarrow> Inl e | Inr f \<Rightarrow> f r)"

section \<open>Table: rows, bounds checks, iteration\<close>

text \<open>
  Modelled from the spec: the Row class (not among the sources), a movable pointer into
  its table. \<open>ident\<close> stands for the identity of the JavaScript object, so that two
  references to one Row can be told from two Rows; \<open>new Row(table, i, binary)\<close> is
  \<open>new_Row\<close> at a fresh identity.
\<close>

record Row =
  ident :: nat
  index :: nat
  binary :: bool

definition new_Row :: "nat \<Rightarrow> nat \<Rightarrow> bool \<Rightarrow> Row" where
  "new_Row fresh i b = \<lparr>ident = fresh, index = i, binary = b\<rparr>"

text \<open>
  \<open>!index\<close> as a number in the comparison \<open>!index >= this.rowCount\<close>: \<open>!\<close> binds
  tighter than \<open>>=\<close>, \<open>!0\<close> is \<open>true\<close> and compares as 1, \<open>!i\<close> for every other
  index is \<open>false\<close> and compares as 0.
\<close>

definition not_index :: "nat \<Rightarrow> nat" where
  "not_index i = (if i = 0 then 1 else 0)"

text \<open>
  \<open>getRow\<close> and \<open>getBinaryRow\<close>. The check is compiled in only when \<open>_DEBUG\<close> is set
  (the flag \<open>debug\<close>). The argument \<open>row\<close> is the Row to reuse; a caller that leaves
  it out passes \<open>new_Row\<close> (\<open>new Row(this, index)\<close>, for \<open>getBinaryRow\<close> with the
  binary flag).
\<close>

definition getRow :: "bool \<Rightarrow> Table \<Rightarrow> nat \<Rightarrow> Row \<Rightarrow> error + Row" where
  "getRow debug t i row =
     (if debug \<and> not_index i \<ge> unat (rowCount t) then Inl IndexOutOfBounds
      else Inr (row\<lparr>index := i\<rparr>))"

definition getBinaryRow :: "bool \<Rightarrow> Table \<Rightarrow> nat \<Rightarrow> Row \<Rightarrow> error + Row" where
  "getBinaryRow debug t i row =
     (if debug \<and> not_index i \<ge> unat (rowCount t) then Inl IndexOutOfBounds
      else Inr (row\<lparr>index := i\<rparr>))"

text \<open>
  \<open>forEach\<close>: the callback acts on a state \<open>'s\<close> and is given the Row and the index.
\<close>

function forEach_loop :: "(Row \<Rightarrow> nat \<Rightarrow> 's \<Rightarrow> 's) \<Rightarrow> Row \<Rightarrow> nat \<Rightarrow> nat \<Rightarrow> 's \<Rightarrow> 's" where
  "forEach_loop itr row i n s =
     (if i < n then forEach_loop itr (row\<lparr>index := i\<rparr>) (Suc i) n (itr (row\<lparr>index := i\<rparr>) i s)
      else s)"
  by pat_completeness auto
termination
  by (relation "measure (\<lambda>(itr, row, i, n, s). n - i)") auto

definition forEach :: "Table \<Rightarrow> nat \<Rightarrow> (Row \<Rightarrow> nat \<Rightarrow> 's \<Rightarrow> 's) \<Rightarrow> 's \<Rightarrow> 's" where
  "forEach t fresh itr s =
     (let row = new_Row fresh 0 False
      in forEach_loop itr row 1 (unat (rowCount t)) (itr row 0 s))"

text \<open>The iterator object of \<open>[Symbol.iterator]\<close> and its \<open>next\<close>.\<close>

record Iterator =
  it_i :: nat
  it_n :: nat
  it_row :: Row

definition Symbol_iterator :: "Table \<Rightarrow> nat \<Rightarrow> Iterator" where
  "Symbol_iterator t fresh =
     \<lparr>it_i = 0, it_n = unat (rowCount t), it_row = new_Row fresh 0 False\<rparr>"

text \<open>\<open>next()\<close>: \<open>Some row\<close> is \<open>{value: row, done: false}\<close>, \<open>None\<close> is \<open>{done: true}\<close>.\<close>

definition iterator_next :: "Iterator \<Rightarrow> Row option \<times> Iterator" where
  "iterator_next it =
     (if it_i it < it_n it then
        (let row = (it_row it)\<lparr>index := it_i it\<rparr>
         in (Some row, it\<lparr>it_i := Suc (it_i it), it_row := row\<rparr>))
      else (None, it))"

text \<open>
  A \<open>for ... of\<close> loop over the table calls \<open>next\<close> until it is done; \<open>for_of\<close> lists
  the rows it is given, as they are when they are given.
\<close>

function for_of :: "Iterator \<Rightarrow> Row list" where
  "for_of it =
     (case iterator_next it of
        (None, it') \<Rightarrow> []
      | (Some row, it') \<Rightarrow> row # for_of it')"
  by pat_completeness auto
termination
  by (relation "measure (\<lambda>it. it_n it - it_i it)")
     (auto simp: iterator_next_def Let_def split: if_splits)

section \<open>FilterProcessor: the result writer\<close>

record ResultField =
  column :: string
  as_field :: jsval

text \<open>The property key \<open>names[as]\<close> looks up, for a truthy \<open>as\<close>.\<close>

fun key_of :: "builtins \<Rightarrow> jsval \<Rightarrow> string" where
  "key_of env (Str s) = s"
| "key_of env (Num n) = propertyKey env n"
| "key_of env (Boolean b) = (if b then ''true'' else ''false'')"
| "key_of env Null = ''null''"
| "key_of env Undefined = ''undefined''"

text \<open>
  A setter of the result Row, bound to the column at index \<open>k\<close>: it writes into the row
  the result Row points at (its index \<open>dst\<close>).
\<close>

definition setter :: "builtins \<Rightarrow> nat \<Rightarrow> nat \<Rightarrow> cell \<Rightarrow> Table \<Rightarrow> Table" where
  "setter env k dst v res =
     res\<lparr>cells := (cells res)(dst := (cells res dst)(k := stored env (ctype (columns res ! k)) v))\<rparr>"

text \<open>
  A field writer is called with the index argument of \<open>resultWriter\<close>; it also reads the
  source Row's index (where its getter reads) and the result Row's index (where its
  setter writes). Its arguments: the source Row's index, the index argument, the result
  Row's index, the result table.
\<close>

type_synonym field_writer = "nat \<Rightarrow> nat \<Rightarrow> nat \<Rightarrow> Table \<Rightarrow> Table"

definition resultWriterField :: "builtins \<Rightarrow> Table \<Rightarrow> nat \<Rightarrow> nat \<Rightarrow> field_writer" where
  "resultWriterField env src kS kD base_index i dst res = setter env kD dst (cells src base_index kS) res"

definition resultWriterRowIndex :: "builtins \<Rightarrow> nat \<Rightarrow> field_writer" where
  "resultWriterRowIndex env kD base_index i dst res = setter env kD dst (Number (Fin (of_nat i))) res"

definition generateFieldWriter :: "builtins \<Rightarrow> Table \<Rightarrow> Table \<Rightarrow> ResultField \<Rightarrow> error + field_writer" where
  "generateFieldWriter env resultTable src d =
     (if truthy (as_field d) then
        (case names src (column d) of
           None \<Rightarrow> Inl TypeError
         | Some kS \<Rightarrow>
             (case names resultTable (key_of env (as_field d)) of
                None \<Rightarrow> Inl TypeError
              | Some kD \<Rightarrow> Inr (resultWriterField env src kS kD)))
      else
        (case names resultTable [] of
           None \<Rightarrow> Inl TypeError
         | Some kD \<Rightarrow> Inr (resultWriterRowIndex env kD)))"

text \<open>
  Modelled from the spec: \<open>Header.addRows\<close> (the Header class is not among the
  sources), an atomic fetch-and-add on the unsigned 32-bit \<open>rowCount\<close> field that
  returns the count before the addition.
\<close>

definition addRows :: "nat \<Rightarrow> Table \<Rightarrow> nat \<times> Table" where
  "addRows n t = (unat (rowCount t), t\<lparr>rowCount := rowCount t + of_nat n\<rparr>)"

text \<open>
  \<open>resultWriter(index)\<close>: the result Row is moved to the row \<open>addRows(1)\<close> returns, and
  the field writers run in order.
\<close>

definition resultWriter :: "field_writer list \<Rightarrow> nat \<Rightarrow> nat \<Rightarrow> Table \<Rightarrow> Table" where
  "resultWriter writers base_index i res =
     (let (dst, res1) = addRows 1 res
      in fold (\<lambda>w acc. w base_index i dst acc) writers res1)"

text \<open>
  \<open>_generateResultWriter\<close>: \<open>resultTable.getRow(0)\<close> first (it raises in a debug build
  when the check fails), then one field writer for each entry of the description.
\<close>

definition generateResultWriter ::
  "builtins \<Rightarrow> bool \<Rightarrow> nat \<Rightarrow> Table \<Rightarrow> ResultField list \<Rightarrow> Table \<Rightarrow>
   error + (nat \<Rightarrow> nat \<Rightarrow> Table \<Rightarrow> Table)" where
  "generateResultWriter env debug fresh resultTable description src =
     (case getRow debug resultTable 0 (new_Row fresh 0 False) of
        Inl e \<Rightarrow> Inl e
      | Inr resultRow \<Rightarrow>
          (case collect (generateFieldWriter env resultTable src) description of
             Inl e \<Rightarrow> Inl e
           | Inr writers \<Rightarrow> Inr (resultWriter writers)))"

section \<open>FilterProcessor: the scan loop\<close>

record FilterProcessor =
  mTable :: Table
  mRow :: Row

text \<open>
  The constructor, on \<open>message.options\<close> (\<open>None\<close> when the message has none, and
  then reading \<open>config.table\<close> raises a TypeError): \<open>deserializeTable(config.table)\<close>,
  which may raise, then \<open>getBinaryRow(0)\<close> on the table. The options of a message that
  has them carry the table's descriptor.
\<close>

definition FilterProcessor_new ::
  "builtins \<Rightarrow> bool \<Rightarrow> nat \<Rightarrow> TableSerialized option \<Rightarrow> error + FilterProcessor" where
  "FilterProcessor_new env debug fresh options =
     (case options of
        None \<Rightarrow> Inl TypeError
      | Some d \<Rightarrow>
          (case deserializeTable env d of
             Inl e \<Rightarrow> Inl e
           | Inr table \<Rightarrow>
               (case getBinaryRow debug table 0 (new_Row fresh 0 True) of
                  Inl e \<Rightarrow> Inl e
                | Inr row \<Rightarrow> Inr \<lparr>mTable = table, mRow = row\<rparr>)))"

text \<open>
  Modelled from the spec: \<open>Atomize.add\<close> (not among the sources), an atomic
  fetch-and-add. The source applies it to element 0 of a \<open>Uint32Array\<close>: the cursor is
  an unsigned 32-bit integer, the addition wraps, and the value before it is returned.
\<close>

definition Atomize_add :: "32 word \<Rightarrow> nat \<Rightarrow> nat \<times> 32 word" where
  "Atomize_add c v = (unat c, c + of_nat v)"

text \<open>
  The inner loop \<^verbatim>\<open>for (r = i; r < n; ++r) { row.index = r; if (filterTester()) { resultWriter(r); } }\<close>
  over a state \<open>'s\<close> that the test and the writer act on. \<open>test r\<close> stands for
  \<open>row.index = r; filterTester()\<close>; a test that raises ends the loop, and the state
  it leaves stays.
\<close>

function batch ::
  "(nat \<Rightarrow> 's \<Rightarrow> (error + bool) \<times> 's) \<Rightarrow> (nat \<Rightarrow> 's \<Rightarrow> 's) \<Rightarrow> nat \<Rightarrow> nat \<Rightarrow> 's \<Rightarrow> error option \<times> 's" where
  "batch test wr r n s =
     (if r < n then
        (case test r s of
           (Inl e, s') \<Rightarrow> (Some e, s')
         | (Inr b, s') \<Rightarrow> batch test wr (Suc r) n (if b then wr r s' else s'))
      else (None, s))"
  by pat_completeness auto
termination
  by (relation "measure (\<lambda>(test, wr, r, n, s). n - r)") auto

text \<open>
  The outer loop
  \<^verbatim>\<open>for (i = Atomize.add(indices, 0, batchSize); i < rowCount; i = Atomize.add(indices, 0, batchSize))\<close>
  of one worker, on the cursor and the state. Nothing bounds the number of its rounds,
  so it is a partial function: \<open>None\<close> when it never returns.
\<close>

partial_function (option) scan_loop ::
  "(nat \<Rightarrow> 's \<Rightarrow> (error + bool) \<times> 's) \<Rightarrow> (nat \<Rightarrow> 's \<Rightarrow> 's) \<Rightarrow> nat \<Rightarrow> nat \<Rightarrow> 32 word \<times> 's \<Rightarrow>
   (error option \<times> 32 word \<times> 's) option" where
  "scan_loop test wr batchSize nrows cs =
     (case Atomize_add (fst cs) batchSize of
        (i, c) \<Rightarrow>
          if i < nrows then
            (case batch test wr i (min (i + batchSize) nrows) (snd cs) of
               (Some e, s') \<Rightarrow> Some (Some e, c, s')
             | (None, s') \<Rightarrow> scan_loop test wr batchSize nrows (c, s'))
          else Some (None, c, snd cs))"

declare scan_loop.simps [code]

record config =
  rules :: "FilterRule list list option"
  mode :: FilterExpressionMode
  resultDescription :: "ResultField list"
  rowBatchSize :: nat

text \<open>
  The memory a scan shares with the coordinator and the other workers: element 0 of
  \<open>config.indices\<close> and the table of \<open>config.resultTable\<close>.
\<close>

record shared =
  cursor :: "32 word"
  resultTable :: Table

text \<open>
  The body of the loop in \<open>process\<close>, on the processor's Row and the result table:
  \<open>row.index = r; filterTester()\<close> moves the Row and calls the tester, which reads the
  row the Row now points at; \<open>resultWriter(r)\<close> reads the source row the Row points at
  and is given \<open>r\<close>.
\<close>

definition row_test :: "tester \<Rightarrow> nat \<Rightarrow> Row \<times> Table \<Rightarrow> (error + bool) \<times> Row \<times> Table" where
  "row_test filterTester r s =
     (case s of (row, res) \<Rightarrow>
        let row' = row\<lparr>index := r\<rparr> in (filterTester (index row'), (row', res)))"

definition row_writer :: "(nat \<Rightarrow> nat \<Rightarrow> Table \<Rightarrow> Table) \<Rightarrow> nat \<Rightarrow> Row \<times> Table \<Rightarrow> Row \<times> Table" where
  "row_writer writer r s = (case s of (row, res) \<Rightarrow> (row, writer (index row) r res))"

text \<open>
  \<open>process\<close>: the tester is compiled, then the writer, then the loop runs. The state of
  the loop is the processor's Row and the result table.
\<close>

definition process ::
  "builtins \<Rightarrow> bool \<Rightarrow> nat \<Rightarrow> FilterProcessor \<Rightarrow> config \<Rightarrow> shared \<Rightarrow>
   (error option \<times> FilterProcessor \<times> shared) option" where
  "process env debug fresh p cfg sh =
     (case generateExpressionTester env (mTable p) (rules cfg) (mode cfg) of
        Inl e \<Rightarrow> Some (Some e, p, sh)
      | Inr filterTester \<Rightarrow>
          (case generateResultWriter env debug fresh (resultTable sh) (resultDescription cfg) (mTable p) of
             Inl e \<Rightarrow> Some (Some e, p, sh)
           | Inr writer \<Rightarrow>
               (case scan_loop (row_test filterTester) (row_writer writer)
                       (rowBatchSize cfg) (unat (rowCount (mTable p)))
                       (cursor sh, (mRow p, resultTable sh)) of
                  None \<Rightarrow> None
                | Some (e, c, (row, res)) \<Rightarrow>
                    Some (e, p\<lparr>mRow := row\<rparr>, \<lparr>cursor = c, resultTable = res\<rparr>))))"

section \<open>The worker\<close>

datatype message = initialize "TableSerialized option" | processFilters config | unrecognized string

datatype reply = reply_success | reply_error string

text \<open>
  The worker: its processor (\<open>gProcessor\<close>, \<open>None\<close> for \<open>null\<close>), the messages it has
  posted to its owner, and the shared memory.
\<close>

record worker =
  gProcessor :: "FilterProcessor option"
  posted :: "reply list"
  memory :: shared

definition sendError :: "string \<Rightarrow> worker \<Rightarrow> worker" where
  "sendError reason w = w\<lparr>posted := posted w @ [reply_error reason]\<rparr>"

definition sendSuccess :: "worker \<Rightarrow> worker" where
  "sendSuccess w = w\<lparr>posted := posted w @ [reply_success]\<rparr>"

text \<open>
  \<open>filterWorkerOnMessage\<close>. \<open>unrecognized ty\<close> is a message whose type is \<open>ty\<close>,
  neither \<open>initialize\<close> nor \<open>processFilters\<close>. The handler has no \<open>try\<close>: what the
  constructor or \<open>process\<close> raises leaves the handler (\<open>Some e\<close>), and nothing is
  posted. \<open>None\<close>: the handler never returns.
\<close>

definition filterWorkerOnMessage ::
  "builtins \<Rightarrow> bool \<Rightarrow> nat \<Rightarrow> message \<Rightarrow> worker \<Rightarrow> (error option \<times> worker) option" where
  "filterWorkerOnMessage env debug fresh msg w =
     (case msg of
        initialize options \<Rightarrow>
          (case gProcessor w of
             Some p \<Rightarrow> Some (None, sendError ''ERROR: Worker is already initialized!'' w)
           | None \<Rightarrow>
               (case FilterProcessor_new env debug fresh options of
                  Inl e \<Rightarrow> Some (Some e, w)
                | Inr p \<Rightarrow> Some (None, sendSuccess (w\<lparr>gProcessor := Some p\<rparr>))))
      | processFilters cfg \<Rightarrow>
          (case gProcessor w of
             Some p \<Rightarrow>
               (case process env debug fresh p cfg (memory w) of
                  None \<Rightarrow> None
                | Some (Some e, p', m) \<Rightarrow> Some (Some e, w\<lparr>gProcessor := Some p', memory := m\<rparr>)
                | Some (None, p', m) \<Rightarrow>
                    Some (None, sendSuccess (w\<lparr>gProcessor := Some p', memory := m\<rparr>)))
           | None \<Rightarrow> Some (None, sendError ''ERROR: Filter.worker has not been initialized'' w))
      | unrecognized ty \<Rightarrow>
          Some (None, sendError (''ERROR: Unrecognized message type '' @ [CHR 0x22] @ ty @ [CHR 0x22]) w))"

text \<open>
  The worker handles its messages one after the other. An exception that leaves the
  handler is reported to the owner's \<open>onerror\<close>, not posted, and the worker goes on
  with the next message; a handler that never returns blocks the worker.
\<close>

fun run_messages :: "builtins \<Rightarrow> bool \<Rightarrow> nat \<Rightarrow> message list \<Rightarrow> worker \<Rightarrow> worker option" where
  "run_messages env debug fresh [] w = Some w"
| "run_messages env debug fresh (msg # msgs) w =
     (case filterWorkerOnMessage env debug fresh msg w of
        None \<Rightarrow> None
      | Some (e, w') \<Rightarrow> run_messages env debug fresh msgs w')"

section \<open>Outcomes and the normal-form semantics\<close>

text \<open>The outcome of an expression on the row at index \<open>r\<close>: compiled, then called.\<close>

definition expression_result ::
  "builtins \<Rightarrow> Table \<Rightarrow> FilterRule list list option \<Rightarrow> FilterExpressionMode \<Rightarrow> nat \<Rightarrow> error + bool" where
  "expression_result env t expression m r =
     (case generateExpressionTester env t expression m of Inl e \<Rightarrow> Inl e | Inr f \<Rightarrow> f r)"

text \<open>
  The normal-form semantics in the specification's words: in DNF an expression matches
  when some clause has all of its rules true, in CNF when every clause has a rule that
  is true. These two definitions follow the specification, not the source.
\<close>

definition spec_DNF :: "builtins \<Rightarrow> Table \<Rightarrow> FilterRule list list \<Rightarrow> nat \<Rightarrow> bool" where
  "spec_DNF env t E r = list_ex (list_all (\<lambda>ru. rule_result env t ru r = Inr True)) E"

definition spec_CNF :: "builtins \<Rightarrow> Table \<Rightarrow> FilterRule list list \<Rightarrow> nat \<Rightarrow> bool" where
  "spec_CNF env t E r = list_all (list_ex (\<lambda>ru. rule_result env t ru r = Inr True)) E"

text \<open>The test \<open>mode === DNF || mode === disjunctiveNormalForm\<close> of both compilers.\<close>

abbreviation isDNF :: "FilterExpressionMode \<Rightarrow> bool" where
  "isDNF m \<equiv> (m = DNF \<or> m = disjunctiveNormalForm)"

section \<open>Sample inputs\<close>

text \<open>
  The parts of a sample environment, for evaluating the model on concrete inputs (the
  environment itself follows the sample tables): \<open>parseFloat\<close> on a
  string of decimal digits is its value (and \<open>NaN\<close> on every other string, which is
  cruder than the built-in), \<open>fromString\<close> takes a string to its bytes, the two
  ByteString methods fold ASCII case, a setter stores what it is given.
\<close>

definition sample_parseFloat :: "string \<Rightarrow> jsnum" where
  "sample_parseFloat s =
     (if s \<noteq> [] \<and> list_all (\<lambda>c. 48 \<le> (of_char c :: nat) \<and> (of_char c :: nat) \<le> 57) s
      then Fin (of_nat (foldl (\<lambda>a c. 10 * a + (of_char c - 48)) 0 s))
      else NaN)"

definition ascii_lower :: "char \<Rightarrow> char" where
  "ascii_lower c =
     (if 65 \<le> (of_char c :: nat) \<and> (of_char c :: nat) \<le> 90 then char_of (of_char c + (32 :: nat)) else c)"

fun starts_with :: "string \<Rightarrow> string \<Rightarrow> bool" where
  "starts_with [] ys = True"
| "starts_with (x # xs) [] = False"
| "starts_with (x # xs) (y # ys) = (x = y \<and> starts_with xs ys)"

fun infix_of :: "string \<Rightarrow> string \<Rightarrow> bool" where
  "infix_of xs [] = (xs = [])"
| "infix_of xs (y # ys) = (starts_with xs (y # ys) \<or> infix_of xs ys)"

text \<open>
  The table of scenarios S1 to S3, rows (1, Ada), (2, Bob), (3, Cid), and the
  expression of S2.
\<close>

definition people :: Table where
  "people =
     \<lparr>columns = [\<lparr>name = ''id'', ctype = Uint32\<rparr>, \<lparr>name = ''name'', ctype = ByteString\<rparr>],
      rowCount = 3,
      cells = (\<lambda>r k. if k = 0 then Number (Fin (of_nat (Suc r)))
                      else Bytes (if r = 0 then ''Ada'' else if r = 1 then ''Bob'' else ''Cid''))\<rparr>"

definition S2_expression :: "FilterRule list list" where
  "S2_expression =
     [[\<lparr>field = ''id'', operation = op_equal, rule_value = Single ''1''\<rparr>],
      [\<lparr>field = ''name'', operation = op_contains, rule_value = Single ''c''\<rparr>]]"

text \<open>
  Two rules on that table: \<open>id\<close> equals 1, and a rule whose operation \<open>between\<close> is
  none of the ten.
\<close>

definition rule_id_is_1 :: FilterRule where
  "rule_id_is_1 = \<lparr>field = ''id'', operation = op_equal, rule_value = Single ''1''\<rparr>"

definition rule_between :: FilterRule where
  "rule_between = \<lparr>field = ''id'', operation = op_unknown ''between'', rule_value = Many [''1'', ''2'']\<rparr>"

text \<open>An empty table, and the result table of scenario S6: columns \<open>id\<close> and the empty name.\<close>

definition empty_table :: Table where
  "empty_table = \<lparr>columns = [\<lparr>name = ''id'', ctype = Uint32\<rparr>], rowCount = 0, cells = (\<lambda>r k. Number (Fin 0))\<rparr>"

definition result_table0 :: Table where
  "result_table0 =
     \<lparr>columns = [\<lparr>name = ''id'', ctype = Uint32\<rparr>, \<lparr>name = [], ctype = Uint32\<rparr>],
      rowCount = 0,
      cells = (\<lambda>r k. Number (Fin 0))\<rparr>"

definition S6_description :: "ResultField list" where
  "S6_description = [\<lparr>column = ''id'', as_field = Str ''id''\<rparr>, \<lparr>column = [], as_field = Undefined\<rparr>]"

section \<open>Observing the callbacks and the writer\<close>

text \<open>A callback for \<open>forEach\<close> that records each call: the Row it is given and the index.\<close>

definition log_call :: "Row \<Rightarrow> nat \<Rightarrow> (Row \<times> nat) list \<Rightarrow> (Row \<times> nat) list" where
  "log_call row i calls = calls @ [(row, i)]"

text \<open>
  The outcome of compiling the result writer and calling it once, for the source row at
  index \<open>r\<close> (the source Row points at \<open>r\<close>, and \<open>r\<close> is the argument).
\<close>

definition written_row ::
  "builtins \<Rightarrow> bool \<Rightarrow> nat \<Rightarrow> Table \<Rightarrow> ResultField list \<Rightarrow> Table \<Rightarrow> nat \<Rightarrow> error + Table" where
  "written_row env debug fresh res description src r =
     (case generateResultWriter env debug fresh res description src of
        Inl e \<Rightarrow> Inl e
      | Inr w \<Rightarrow> Inr (w r r res))"

text \<open>
  What the specification says a call of the writer does, entry by entry, read directly
  from the description: a fresh row, then for each entry in order either a copy of the
  source column into the result column \<open>as\<close>, or the source row's index into the
  column with the empty name. Which of the two is decided by \<open>present\<close>, a test on
  the entry's \<open>as\<close>. These definitions follow the specification, not the source.
\<close>

definition described_entry ::
  "(jsval \<Rightarrow> bool) \<Rightarrow> builtins \<Rightarrow> Table \<Rightarrow> ResultField \<Rightarrow> nat \<Rightarrow> nat \<Rightarrow> Table \<Rightarrow> error + Table" where
  "described_entry present env src d r dst res =
     (if present (as_field d) then
        (case names src (column d) of
           None \<Rightarrow> Inl TypeError
         | Some kS \<Rightarrow>
             (case names res (key_of env (as_field d)) of
                None \<Rightarrow> Inl TypeError
              | Some kD \<Rightarrow> Inr (setter env kD dst (cells src r kS) res)))
      else
        (case names res [] of
           None \<Rightarrow> Inl TypeError
         | Some kD \<Rightarrow> Inr (setter env kD dst (Number (Fin (of_nat r))) res)))"

fun described_entries ::
  "(jsval \<Rightarrow> bool) \<Rightarrow> builtins \<Rightarrow> Table \<Rightarrow> ResultField list \<Rightarrow> nat \<Rightarrow> nat \<Rightarrow> Table \<Rightarrow> error + Table" where
  "described_entries present env src [] r dst res = Inr res"
| "described_entries present env src (d # ds) r dst res =
     (case described_entry present env src d r dst res of
        Inl e \<Rightarrow> Inl e
      | Inr res' \<Rightarrow> described_entries present env src ds r dst res')"

definition described_row ::
  "(jsval \<Rightarrow> bool) \<Rightarrow> builtins \<Rightarrow> Table \<Rightarrow> ResultField list \<Rightarrow> nat \<Rightarrow> Table \<Rightarrow> error + Table" where
  "described_row present env src description r res =
     described_entries present env src description r (unat (rowCount res))
       (res\<lparr>rowCount := rowCount res + 1\<rparr>)"

text \<open>\<open>as\<close> is present: the entry has the field, whatever its value.\<close>

definition is_present :: "jsval \<Rightarrow> bool" where
  "is_present a = (a \<noteq> Undefined)"

section \<open>Observing the scan\<close>

text \<open>
  One visit of the loop body to the row at index \<open>r\<close>, when nothing is raised: the
  test, then the writer if the test was true.
\<close>

definition visit :: "(nat \<Rightarrow> 's \<Rightarrow> (error + bool) \<times> 's) \<Rightarrow> (nat \<Rightarrow> 's \<Rightarrow> 's) \<Rightarrow> nat \<Rightarrow> 's \<Rightarrow> 's" where
  "visit test wr r s =
     (case test r s of
        (Inl e, s') \<Rightarrow> s'
      | (Inr b, s') \<Rightarrow> if b then wr r s' else s')"

text \<open>A writer that records the index it is called with.\<close>

definition log_row :: "nat \<Rightarrow> nat list \<Rightarrow> nat list" where
  "log_row r rows = rows @ [r]"

text \<open>
  A scan whose cursor cannot advance: the cursor is 0, the batch size is a multiple
  of \<open>2 ^ 32\<close> (adding it to the 32-bit cursor adds nothing), the table has a row, and
  the test does not raise.
\<close>

definition stuck :: "(nat \<Rightarrow> 's \<Rightarrow> (error + bool) \<times> 's) \<Rightarrow> nat \<Rightarrow> nat \<Rightarrow> 32 word \<times> 's \<Rightarrow> bool" where
  "stuck test b nrows cs \<longleftrightarrow>
     fst cs = 0 \<and> of_nat b = (0 :: 32 word) \<and> 0 < nrows
     \<and> (\<forall>r<nrows. \<forall>s. \<exists>v s'. test r s = (Inr v, s'))"

text \<open>The rows of a table, each as the list of its cells in memory order.\<close>

definition result_rows :: "Table \<Rightarrow> cell list list" where
  "result_rows t = map (\<lambda>j. map (cells t j) [0..<length (columns t)]) [0..<unat (rowCount t)]"

text \<open>
  Scenario S4: a table of 1000 rows whose \<open>id\<close> is the row's index, the expression
  \<open>[[{id, in, ["7", "42", "999", "1000"]}]]\<close>, a processor on the table, and a
  configuration with the result description of S6 and batches of 128 rows.
\<close>

definition S4_rule :: FilterRule where
  "S4_rule = \<lparr>field = ''id'', operation = op_in, rule_value = Many [''7'', ''42'', ''999'', ''1000'']\<rparr>"

definition S4_expression :: "FilterRule list list" where
  "S4_expression = [[S4_rule]]"

definition ids_table :: Table where
  "ids_table =
     \<lparr>columns = [\<lparr>name = ''id'', ctype = Uint32\<rparr>],
      rowCount = 1000,
      cells = (\<lambda>r k. Number (Fin (of_nat r)))\<rparr>"

definition S4_config :: config where
  "S4_config = \<lparr>rules = Some S4_expression, mode = DNF, resultDescription = S6_description, rowBatchSize = 128\<rparr>"

definition ids_processor :: FilterProcessor where
  "ids_processor = \<lparr>mTable = ids_table, mRow = new_Row 0 0 True\<rparr>"

text \<open>
  The sample environment. Its \<open>deserializeTable\<close> finds the table of S1 to S3 at
  address 0 and the table of S4 at address 1, and raises on every other descriptor.
\<close>

definition sample_deserializeTable :: "TableSerialized \<Rightarrow> error + Table" where
  "sample_deserializeTable d =
     (case d of TableDescriptor a n \<Rightarrow>
        if a = 0 then Inr people else if a = 1 then Inr ids_table else Inl TypeError)"

definition sample_env :: builtins where
  "sample_env =
     \<lparr>parseFloat = sample_parseFloat,
      fromString = (\<lambda>v. case v of Single s \<Rightarrow> Inr s | Many ss \<Rightarrow> Inl TypeError),
      equalsCase = (\<lambda>a b. map ascii_lower a = map ascii_lower b),
      containsCase = (\<lambda>a b. infix_of (map ascii_lower b) (map ascii_lower a)),
      toNumber = sample_parseFloat,
      propertyKey = (\<lambda>n. ''number''),
      stored = (\<lambda>ty v. v),
      deserializeTable = sample_deserializeTable\<rparr>"

section \<open>Rules and rows that fit the columns' types\<close>

text \<open>
  A row fits the columns' types when each of its cells is a ByteString exactly when
  its column's type is ByteString. A rule fits the table when its operation is one of
  the ten, and \<open>contains\<close> and \<open>notContains\<close> name a ByteString column.
\<close>

fun is_Bytes :: "cell \<Rightarrow> bool" where
  "is_Bytes (Bytes b) = True"
| "is_Bytes (Number n) = False"

definition typed_row :: "Table \<Rightarrow> nat \<Rightarrow> bool" where
  "typed_row t r =
     list_all (\<lambda>k. (ctype (columns t ! k) = ByteString) = is_Bytes (cells t r k)) [0..<length (columns t)]"

definition text_column :: "Table \<Rightarrow> string \<Rightarrow> bool" where
  "text_column t f = (case names t f of None \<Rightarrow> False | Some k \<Rightarrow> ctype (columns t ! k) = ByteString)"

definition rule_typed :: "Table \<Rightarrow> FilterRule \<Rightarrow> bool" where
  "rule_typed t ru =
     (case operation ru of
        op_unknown s \<Rightarrow> False
      | op_contains \<Rightarrow> text_column t (field ru)
      | op_notContains \<Rightarrow> text_column t (field ru)
      | _ \<Rightarrow> True)"

section \<open>Sample workers and messages\<close>

text \<open>
  A worker before \<open>initialize\<close> and one that holds a processor on the table of S1 to
  S3; configurations whose only rule has the unknown operation \<open>between\<close>, names the
  column \<open>age\<close> that the table does not have, and the expression of S2; the
  configuration of S4 with a batch size of \<open>2 ^ 32\<close> and a worker that holds the
  processor of S4; and what is
  observed of a handled message: the exception that left the handler, the replies
  posted, the rows of the result table.
\<close>

definition worker0 :: worker where
  "worker0 = \<lparr>gProcessor = None, posted = [], memory = \<lparr>cursor = 0, resultTable = result_table0\<rparr>\<rparr>"

definition people_processor :: FilterProcessor where
  "people_processor = \<lparr>mTable = people, mRow = new_Row 0 0 True\<rparr>"

definition ready_worker :: worker where
  "ready_worker = worker0\<lparr>gProcessor := Some people_processor\<rparr>"


definition rule_age :: FilterRule where
  "rule_age = \<lparr>field = ''age'', operation = op_equal, rule_value = Single ''30''\<rparr>"

definition age_config :: config where
  "age_config = \<lparr>rules = Some [[rule_age]], mode = DNF, resultDescription = S6_description, rowBatchSize = 2\<rparr>"

definition S2_config :: config where
  "S2_config = \<lparr>rules = Some S2_expression, mode = DNF, resultDescription = S6_description, rowBatchSize = 2\<rparr>"

definition S4_wrap_config :: config where
  "S4_wrap_config = S4_config\<lparr>rowBatchSize := 4294967296\<rparr>"

definition ids_worker :: worker where
  "ids_worker = worker0\<lparr>gProcessor := Some ids_processor\<rparr>"

definition outcome :: "(error option \<times> worker) option \<Rightarrow> (error option \<times> reply list \<times> cell list list) option" where
  "outcome x = map_option (\<lambda>(e, w). (e, posted w, result_rows (resultTable (memory w)))) x"

section \<open>Properties of the compiled tester\<close>

lemma collect_total:
  "\<forall>x\<in>set xs. \<exists>y. f x = Inr y \<Longrightarrow> \<exists>ys. collect f xs = Inr ys"
proof (induction xs)
  case Nil
  then show ?case by simp
next
  case (Cons x xs)
  then obtain y where y: "f x = Inr y" by force
  from Cons obtain ys where "collect f xs = Inr ys" by force
  with y show ?case by simp
qed

lemma clause_total:
  assumes "\<forall>ru\<in>set c. \<exists>b. rule_result env t ru r = Inr b"
  shows "\<exists>ts. collect (generateRuleTester env t) c = Inr ts
     \<and> ruleTesterDNF ts r = Inr (\<forall>ru\<in>set c. rule_result env t ru r = Inr True)
     \<and> ruleTesterCNF ts r = Inr (\<exists>ru\<in>set c. rule_result env t ru r = Inr True)"
  using assms
proof (induction c)
  case Nil
  then show ?case by simp
next
  case (Cons ru c)
  then obtain ts where ts: "collect (generateRuleTester env t) c = Inr ts"
    "ruleTesterDNF ts r = Inr (\<forall>ru\<in>set c. rule_result env t ru r = Inr True)"
    "ruleTesterCNF ts r = Inr (\<exists>ru\<in>set c. rule_result env t ru r = Inr True)"
    by auto
  from Cons.prems obtain b where b: "rule_result env t ru r = Inr b" by auto
  then obtain f where f: "generateRuleTester env t ru = Inr f" "call f r = Inr b"
    by (auto simp: rule_result_def split: sum.splits)
  have "collect (generateRuleTester env t) (ru # c) = Inr (f # ts)"
    using f ts by simp
  moreover have "ruleTesterDNF (f # ts) r = Inr (\<forall>x\<in>set (ru # c). rule_result env t x r = Inr True)"
    using f ts b by auto
  moreover have "ruleTesterCNF (f # ts) r = Inr (\<exists>x\<in>set (ru # c). rule_result env t x r = Inr True)"
    using f ts b by auto
  ultimately show ?case by blast
qed

lemma clause_result_total:
  assumes "\<forall>ru\<in>set c. \<exists>b. rule_result env t ru r = Inr b"
  shows "clause_result env t m c r =
     Inr (if m = DNF \<or> m = disjunctiveNormalForm
          then (\<forall>ru\<in>set c. rule_result env t ru r = Inr True)
          else (\<exists>ru\<in>set c. rule_result env t ru r = Inr True))"
proof -
  from clause_total [OF assms] obtain ts where
    "collect (generateRuleTester env t) c = Inr ts"
    "ruleTesterDNF ts r = Inr (\<forall>ru\<in>set c. rule_result env t ru r = Inr True)"
    "ruleTesterCNF ts r = Inr (\<exists>ru\<in>set c. rule_result env t ru r = Inr True)"
    by blast
  then show ?thesis
    by (simp add: clause_result_def generateClauseTester_def)
qed

lemma expression_total:
  assumes "\<forall>c\<in>set E. \<exists>b. clause_result env t m c r = Inr b"
  shows "\<exists>ts. collect (\<lambda>c. generateClauseTester env t c m) E = Inr ts
     \<and> filterTesterDNF ts r = Inr (\<exists>c\<in>set E. clause_result env t m c r = Inr True)
     \<and> filterTesterCNF ts r = Inr (\<forall>c\<in>set E. clause_result env t m c r = Inr True)"
  using assms
proof (induction E)
  case Nil
  then show ?case by simp
next
  case (Cons c E)
  then obtain ts where ts: "collect (\<lambda>c. generateClauseTester env t c m) E = Inr ts"
    "filterTesterDNF ts r = Inr (\<exists>c\<in>set E. clause_result env t m c r = Inr True)"
    "filterTesterCNF ts r = Inr (\<forall>c\<in>set E. clause_result env t m c r = Inr True)"
    by auto
  from Cons.prems obtain b where b: "clause_result env t m c r = Inr b" by auto
  then obtain f where f: "generateClauseTester env t c m = Inr f" "f r = Inr b"
    by (auto simp: clause_result_def split: sum.splits)
  have "collect (\<lambda>c. generateClauseTester env t c m) (c # E) = Inr (f # ts)"
    using f ts by simp
  moreover have "filterTesterDNF (f # ts) r = Inr (\<exists>x\<in>set (c # E). clause_result env t m x r = Inr True)"
    using f ts b by auto
  moreover have "filterTesterCNF (f # ts) r = Inr (\<forall>x\<in>set (c # E). clause_result env t m x r = Inr True)"
    using f ts b by auto
  ultimately show ?case by blast
qed

lemma normal_form:
  assumes ne: "E \<noteq> []"
    and total: "\<forall>c\<in>set E. \<forall>ru\<in>set c. \<exists>b. rule_result env t ru r = Inr b"
  shows "\<exists>T. generateExpressionTester env t (Some E) m = Inr T \<and>
     T r = Inr (if m = DNF \<or> m = disjunctiveNormalForm
                then (\<exists>c\<in>set E. \<forall>ru\<in>set c. rule_result env t ru r = Inr True)
                else (\<forall>c\<in>set E. \<exists>ru\<in>set c. rule_result env t ru r = Inr True))"
proof -
  have cr: "clause_result env t m c r =
     Inr (if m = DNF \<or> m = disjunctiveNormalForm
          then (\<forall>ru\<in>set c. rule_result env t ru r = Inr True)
          else (\<exists>ru\<in>set c. rule_result env t ru r = Inr True))" if "c \<in> set E" for c
    using that total by (intro clause_result_total) blast
  then have "\<forall>c\<in>set E. \<exists>b. clause_result env t m c r = Inr b" by blast
  from expression_total [OF this] obtain ts where ts:
    "collect (\<lambda>c. generateClauseTester env t c m) E = Inr ts"
    "filterTesterDNF ts r = Inr (\<exists>c\<in>set E. clause_result env t m c r = Inr True)"
    "filterTesterCNF ts r = Inr (\<forall>c\<in>set E. clause_result env t m c r = Inr True)"
    by blast
  obtain c cs where E: "E = c # cs" using ne by (cases E) auto
  show ?thesis
  proof (cases "m = DNF \<or> m = disjunctiveNormalForm")
    case True
    then have "generateExpressionTester env t (Some E) m = Inr (filterTesterDNF ts)"
      using ts(1) unfolding E by (simp add: generateExpressionTester_def)
    moreover have "filterTesterDNF ts r = Inr (\<exists>c\<in>set E. \<forall>ru\<in>set c. rule_result env t ru r = Inr True)"
      using ts(2) cr True by auto
    ultimately show ?thesis using True by auto
  next
    case False
    then have "generateExpressionTester env t (Some E) m = Inr (filterTesterCNF ts)"
      using ts(1) unfolding E by (simp add: generateExpressionTester_def)
    moreover have "filterTesterCNF ts r = Inr (\<forall>c\<in>set E. \<exists>ru\<in>set c. rule_result env t ru r = Inr True)"
      using ts(3) cr False by auto
    ultimately show ?thesis using False by auto
  qed
qed

lemma collect_set:
  "collect f xs = Inr ys \<Longrightarrow> y \<in> set ys \<Longrightarrow> \<exists>x\<in>set xs. f x = Inr y"
  by (induction xs arbitrary: ys) (auto split: sum.splits)

lemma collect_append:
  "collect f (xs @ x # zs) = Inr ys \<Longrightarrow>
   \<exists>as b bs. ys = as @ b # bs \<and> collect f xs = Inr as \<and> f x = Inr b"
proof (induction xs arbitrary: ys)
  case Nil
  then show ?case by (auto split: sum.splits)
next
  case (Cons a xs)
  from Cons.prems obtain a' ys' where a: "f a = Inr a'" and ys': "collect f (xs @ x # zs) = Inr ys'"
    and ys: "ys = a' # ys'"
    by (auto split: sum.splits)
  from Cons.IH [OF ys'] obtain as b bs where "ys' = as @ b # bs" "collect f xs = Inr as" "f x = Inr b"
    by blast
  then have "ys = (a' # as) @ b # bs \<and> collect f (a # xs) = Inr (a' # as) \<and> f x = Inr b"
    using a ys by simp
  then show ?case by blast
qed

lemma ruleTesterDNF_short:
  "\<forall>x\<in>set ts1. call x r = Inr True \<Longrightarrow> call t r = Inr False \<Longrightarrow>
   ruleTesterDNF (ts1 @ t # ts2) r = Inr False"
  by (induction ts1) simp_all

lemma ruleTesterCNF_short:
  "\<forall>x\<in>set ts1. call x r = Inr False \<Longrightarrow> call t r = Inr True \<Longrightarrow>
   ruleTesterCNF (ts1 @ t # ts2) r = Inr True"
  by (induction ts1) simp_all

lemma filterTesterDNF_short:
  "\<forall>x\<in>set ts1. x r = Inr False \<Longrightarrow> t r = Inr True \<Longrightarrow>
   filterTesterDNF (ts1 @ t # ts2) r = Inr True"
  by (induction ts1) simp_all

lemma filterTesterCNF_short:
  "\<forall>x\<in>set ts1. x r = Inr True \<Longrightarrow> t r = Inr False \<Longrightarrow>
   filterTesterCNF (ts1 @ t # ts2) r = Inr False"
  by (induction ts1) simp_all

lemma clause_short_circuit:
  assumes comp: "generateClauseTester env t (rs1 @ ru # rs2) m = Inr T"
    and before: "\<forall>x\<in>set rs1. rule_result env t x r = Inr (isDNF m)"
    and decide: "rule_result env t ru r = Inr (\<not> isDNF m)"
  shows "T r = Inr (\<not> isDNF m)"
proof -
  from comp obtain ts where ts: "collect (generateRuleTester env t) (rs1 @ ru # rs2) = Inr ts"
    and T: "T = (if isDNF m then ruleTesterDNF ts else ruleTesterCNF ts)"
    by (auto simp: generateClauseTester_def split: sum.splits if_splits)
  from collect_append [OF ts] obtain as b bs where
    split: "ts = as @ b # bs" and as: "collect (generateRuleTester env t) rs1 = Inr as"
    and b: "generateRuleTester env t ru = Inr b"
    by blast
  have d: "call b r = Inr (\<not> isDNF m)"
    using decide b by (simp add: rule_result_def)
  have a: "\<forall>x\<in>set as. call x r = Inr (isDNF m)"
  proof
    fix x assume "x \<in> set as"
    from collect_set [OF as this] obtain y where "y \<in> set rs1" "generateRuleTester env t y = Inr x"
      by blast
    with before show "call x r = Inr (isDNF m)"
      by (auto simp: rule_result_def)
  qed
  show ?thesis
  proof (cases "isDNF m")
    case True
    with a d show ?thesis unfolding T split by (simp add: ruleTesterDNF_short)
  next
    case False
    with a d show ?thesis unfolding T split by (simp add: ruleTesterCNF_short)
  qed
qed

lemma expression_short_circuit:
  assumes comp: "generateExpressionTester env t (Some (cs1 @ c # cs2)) m = Inr T"
    and before: "\<forall>x\<in>set cs1. clause_result env t m x r = Inr (\<not> isDNF m)"
    and decide: "clause_result env t m c r = Inr (isDNF m)"
  shows "T r = Inr (isDNF m)"
proof -
  obtain c' cs' where ne: "cs1 @ c # cs2 = c' # cs'" by (cases cs1) auto
  from comp obtain ts where ts: "collect (\<lambda>x. generateClauseTester env t x m) (cs1 @ c # cs2) = Inr ts"
    and T: "T = (if isDNF m then filterTesterDNF ts else filterTesterCNF ts)"
    unfolding ne generateExpressionTester_def
    by (auto split: sum.splits if_splits)
  from collect_append [OF ts] obtain as b bs where
    split: "ts = as @ b # bs" and as: "collect (\<lambda>x. generateClauseTester env t x m) cs1 = Inr as"
    and b: "generateClauseTester env t c m = Inr b"
    by blast
  have d: "b r = Inr (isDNF m)"
    using decide b by (simp add: clause_result_def)
  have a: "\<forall>x\<in>set as. x r = Inr (\<not> isDNF m)"
  proof
    fix x assume "x \<in> set as"
    from collect_set [OF as this] obtain y where "y \<in> set cs1" "generateClauseTester env t y m = Inr x"
      by blast
    with before show "x r = Inr (\<not> isDNF m)"
      by (auto simp: clause_result_def)
  qed
  show ?thesis
  proof (cases "isDNF m")
    case True
    with a d show ?thesis unfolding T split by (simp add: filterTesterDNF_short)
  next
    case False
    with a d show ?thesis unfolding T split by (simp add: filterTesterCNF_short)
  qed
qed

lemma normal_form':
  assumes ne: "E \<noteq> []"
    and total: "\<forall>c\<in>set E. \<forall>ru\<in>set c. \<exists>b. rule_result env t ru r = Inr b"
  shows "expression_result env t (Some E) m r =
     Inr (if isDNF m then spec_DNF env t E r else spec_CNF env t E r)"
  using normal_form [OF ne total, of m]
  by (auto simp: expression_result_def spec_DNF_def spec_CNF_def list_ex_iff list_all_iff)

text \<open>
  C8. The tester compiled from an absent expression and from an expression with no
  clause is \<open>filterTesterEmpty\<close>, in every mode, and it returns true on every row: it
  selects every row index of a table.
\<close>

theorem empty_expression_matches_every_row:
  "generateExpressionTester env t None m = Inr filterTesterEmpty
   \<and> generateExpressionTester env t (Some []) m = Inr filterTesterEmpty
   \<and> filterTesterEmpty r = Inr True
   \<and> filter (\<lambda>r. filterTesterEmpty r = Inr True) [0..<unat (rowCount t)] = [0..<unat (rowCount t)]"
  by (simp add: generateExpressionTester_def filterTesterEmpty_def)

text \<open>
  C1, as amended. For an expression \<open>E\<close> with at least one clause, every rule of which
  compiles to a tester that returns a boolean on the row, the compiled tester returns
  what the normal form says: in DNF mode true exactly when some clause has all of its
  rules true, in every other mode (CNF) true exactly when every clause has a rule
  that is true. Both aggregators stop at the first deciding element: the expression
  tester answers with the first clause that is true (DNF) or false (CNF), whatever the
  clauses after it would do, and the clause tester answers with the first rule that is
  false (DNF) or true (CNF), whatever the rules after it would do (they may be
  \<open>null\<close> or raise: they are not called).
\<close>

theorem filter_normal_form_semantics:
  "(E \<noteq> [] \<and> (\<forall>c\<in>set E. \<forall>ru\<in>set c. \<exists>b. rule_result env t ru r = Inr b) \<longrightarrow>
      expression_result env t (Some E) m r =
        Inr (if isDNF m then spec_DNF env t E r else spec_CNF env t E r))
   \<and> (generateExpressionTester env t (Some (cs1 @ c # cs2)) m = Inr T
        \<and> (\<forall>x\<in>set cs1. clause_result env t m x r = Inr (\<not> isDNF m))
        \<and> clause_result env t m c r = Inr (isDNF m) \<longrightarrow>
      T r = Inr (isDNF m))
   \<and> (generateClauseTester env t (rs1 @ ru # rs2) m = Inr T'
        \<and> (\<forall>x\<in>set rs1. rule_result env t x r = Inr (isDNF m))
        \<and> rule_result env t ru r = Inr (\<not> isDNF m) \<longrightarrow>
      T' r = Inr (\<not> isDNF m))"
  using normal_form' [of E env t r m]
    expression_short_circuit [of env t cs1 c cs2 m T r]
    clause_short_circuit [of env t rs1 ru rs2 m T' r]
  by blast

theorem filter_normal_form_semantics_witness:
  "expression_result sample_env people (Some S2_expression) DNF 2 = Inr True
   \<and> expression_result sample_env people (Some ([] @ [rule_id_is_1] # [[rule_between]])) DNF 0 = Inr True
   \<and> clause_result sample_env people DNF ([] @ rule_id_is_1 # [rule_between]) 1 = Inr False"
proof -
  have h1: "S2_expression \<noteq> [] \<and>
      (\<forall>c\<in>set S2_expression. \<forall>ru\<in>set c. \<exists>b. rule_result sample_env people ru 2 = Inr b)"
    by code_simp
  have v1: "(if isDNF DNF then spec_DNF sample_env people S2_expression 2
             else spec_CNF sample_env people S2_expression 2) = True"
    by code_simp
  have c1: "expression_result sample_env people (Some S2_expression) DNF 2 = Inr True"
    using filter_normal_form_semantics [where E = S2_expression and env = sample_env and t = people and r = 2 and m = DNF] h1 v1 by simp
  have "\<not> isl (generateExpressionTester sample_env people (Some ([] @ [rule_id_is_1] # [[rule_between]])) DNF)"
    by code_simp
  then obtain T where T: "generateExpressionTester sample_env people (Some ([] @ [rule_id_is_1] # [[rule_between]])) DNF = Inr T"
    by (cases "generateExpressionTester sample_env people (Some ([] @ [rule_id_is_1] # [[rule_between]])) DNF") auto
  have h2: "(\<forall>x\<in>set []. clause_result sample_env people DNF x 0 = Inr (\<not> isDNF DNF))
      \<and> clause_result sample_env people DNF [rule_id_is_1] 0 = Inr (isDNF DNF)"
    by code_simp
  have "T 0 = Inr (isDNF DNF)"
    using filter_normal_form_semantics [where env = sample_env and t = people and r = 0 and m = DNF and ?cs1.0 = "[]" and c = "[rule_id_is_1]" and ?cs2.0 = "[[rule_between]]" and T = T] T h2
    by blast
  then have c2: "expression_result sample_env people (Some ([] @ [rule_id_is_1] # [[rule_between]])) DNF 0 = Inr True"
    using T by (simp add: expression_result_def)
  have "\<not> isl (generateClauseTester sample_env people ([] @ rule_id_is_1 # [rule_between]) DNF)"
    by code_simp
  then obtain T' where T': "generateClauseTester sample_env people ([] @ rule_id_is_1 # [rule_between]) DNF = Inr T'"
    by (cases "generateClauseTester sample_env people ([] @ rule_id_is_1 # [rule_between]) DNF") auto
  have h3: "(\<forall>x\<in>set []. rule_result sample_env people x 1 = Inr (isDNF DNF))
      \<and> rule_result sample_env people rule_id_is_1 1 = Inr (\<not> isDNF DNF)"
    by code_simp
  have "T' 1 = Inr (\<not> isDNF DNF)"
    using filter_normal_form_semantics [where env = sample_env and t = people and r = 1 and m = DNF and ?rs1.0 = "[]" and ru = rule_id_is_1 and ?rs2.0 = "[rule_between]" and T' = T'] T' h3
    by blast
  then have c3: "clause_result sample_env people DNF ([] @ rule_id_is_1 # [rule_between]) 1 = Inr False"
    using T' by (simp add: clause_result_def)
  from c1 c2 c3 show ?thesis by blast
qed

text \<open>
  C1 as stated fails on the expression with no clause: in DNF mode no clause has all of
  its rules true, and the compiled tester returns true (the guard of
  \<open>_generateExpressionTester\<close>).
\<close>

theorem empty_DNF_counterexample:
  "expression_result sample_env people (Some []) DNF 0 = Inr True
   \<and> \<not> spec_DNF sample_env people [] 0"
  by (simp add: expression_result_def generateExpressionTester_def filterTesterEmpty_def spec_DNF_def)

section \<open>Properties of Table\<close>

declare forEach_loop.simps [simp del] for_of.simps [simp del] valuesLoop.simps [simp del] batch.simps [simp del]

lemma forEach_loop_fold:
  "forEach_loop itr row i n s = fold (\<lambda>j. itr (row\<lparr>index := j\<rparr>) j) [i..<n] s"
proof (induction itr row i n s rule: forEach_loop.induct)
  case (1 itr row i n s)
  show ?case
  proof (cases "i < n")
    case True
    then have "[i..<n] = i # [Suc i..<n]" by (simp add: upt_conv_Cons)
    with True "1.IH" show ?thesis by (subst forEach_loop.simps) simp
  next
    case False
    then show ?thesis by (subst forEach_loop.simps) simp
  qed
qed

lemma for_of_map:
  "for_of it = map (\<lambda>j. (it_row it)\<lparr>index := j\<rparr>) [it_i it..<it_n it]"
proof (induction it rule: for_of.induct)
  case (1 it)
  show ?case
  proof (cases "it_i it < it_n it")
    case True
    then have u: "[it_i it..<it_n it] = it_i it # [Suc (it_i it)..<it_n it]" by (simp add: upt_conv_Cons)
    have n: "iterator_next it =
        (Some ((it_row it)\<lparr>index := it_i it\<rparr>),
         it\<lparr>it_i := Suc (it_i it), it_row := (it_row it)\<lparr>index := it_i it\<rparr>\<rparr>)"
      using True by (simp add: iterator_next_def Let_def)
    have "for_of it = (it_row it)\<lparr>index := it_i it\<rparr> #
        for_of (it\<lparr>it_i := Suc (it_i it), it_row := (it_row it)\<lparr>index := it_i it\<rparr>\<rparr>)"
      by (subst for_of.simps) (simp add: n)
    also have "for_of (it\<lparr>it_i := Suc (it_i it), it_row := (it_row it)\<lparr>index := it_i it\<rparr>\<rparr>) =
        map (\<lambda>j. (it_row it)\<lparr>index := j\<rparr>) [Suc (it_i it)..<it_n it]"
      using "1.IH" [OF n [symmetric] refl] by simp
    finally show ?thesis using u by simp
  next
    case False
    then have "iterator_next it = (None, it)" by (simp add: iterator_next_def)
    then have "for_of it = []" by (subst for_of.simps) simp
    with False show ?thesis by simp
  qed
qed

text \<open>
  C9. \<open>forEach\<close> calls its callback on index 0 and then on 1, ..., \<open>rowCount - 1\<close>,
  whatever \<open>rowCount\<close> is: on an empty table the callback is still called exactly
  once, with index 0. The iterator yields exactly \<open>rowCount\<close> rows, at the indices
  0, ..., \<open>rowCount - 1\<close> in ascending order (none for an empty table). Both reuse one
  Row (the identity \<open>fresh\<close>), moved from call to call.
\<close>

theorem forEach_and_iterator:
  "forEach t fresh itr s =
     fold (\<lambda>j. itr \<lparr>ident = fresh, index = j, binary = False\<rparr> j) (0 # [1..<unat (rowCount t)]) s
   \<and> (rowCount t = 0 \<longrightarrow> forEach t fresh log_call [] = [(\<lparr>ident = fresh, index = 0, binary = False\<rparr>, 0)])
   \<and> for_of (Symbol_iterator t fresh) =
       map (\<lambda>j. \<lparr>ident = fresh, index = j, binary = False\<rparr>) [0..<unat (rowCount t)]
   \<and> length (for_of (Symbol_iterator t fresh)) = unat (rowCount t)"
proof -
  have a: "forEach t fresh itr s =
     fold (\<lambda>j. itr \<lparr>ident = fresh, index = j, binary = False\<rparr> j) (0 # [1..<unat (rowCount t)]) s" for itr :: "Row \<Rightarrow> nat \<Rightarrow> 'b \<Rightarrow> 'b" and s
    by (simp add: forEach_def forEach_loop_fold new_Row_def Let_def)
  have b: "for_of (Symbol_iterator t fresh) =
       map (\<lambda>j. \<lparr>ident = fresh, index = j, binary = False\<rparr>) [0..<unat (rowCount t)]"
    by (simp add: for_of_map Symbol_iterator_def new_Row_def)
  have c: "rowCount t = 0 \<Longrightarrow> forEach t fresh log_call [] = [(\<lparr>ident = fresh, index = 0, binary = False\<rparr>, 0)]"
    by (simp add: a log_call_def)
  from a b c show ?thesis by simp
qed

theorem forEach_and_iterator_witness:
  "forEach empty_table 7 log_call [] = [(\<lparr>ident = 7, index = 0, binary = False\<rparr>, 0)]
   \<and> for_of (Symbol_iterator empty_table 7) = []
   \<and> forEach people 7 log_call [] =
       [(\<lparr>ident = 7, index = 0, binary = False\<rparr>, 0), (\<lparr>ident = 7, index = 1, binary = False\<rparr>, 1),
        (\<lparr>ident = 7, index = 2, binary = False\<rparr>, 2)]
   \<and> for_of (Symbol_iterator people 7) =
       [\<lparr>ident = 7, index = 0, binary = False\<rparr>, \<lparr>ident = 7, index = 1, binary = False\<rparr>,
        \<lparr>ident = 7, index = 2, binary = False\<rparr>]"
proof -
  have e: "rowCount empty_table = 0" by (simp add: empty_table_def)
  have p: "unat (rowCount people) = 3" by (simp add: people_def)
  have u: "[1..<3] = [1, 2::nat]" "[0..<3] = [0, 1, 2::nat]" by (simp_all add: upt_rec)
  show ?thesis
    using forEach_and_iterator [of empty_table 7 log_call "[]"]
      forEach_and_iterator [of people 7 log_call "[]"] e p u
    by (simp add: log_call_def)
qed

text \<open>
  In a debug build the check is \<open>!index >= rowCount\<close>: it raises exactly when
  \<open>rowCount\<close> is at most 1 and the index is 0, or \<open>rowCount\<close> is 0. A release
  build has no check.
\<close>

lemma getRow_debug_raises_iff:
  "getRow True t i row = Inl IndexOutOfBounds \<longleftrightarrow> not_index i \<ge> unat (rowCount t)"
  by (simp add: getRow_def)

lemma getRow_release_returns:
  "getRow False t i row = Inr (row\<lparr>index := i\<rparr>) \<and> getBinaryRow False t i row = Inr (row\<lparr>index := i\<rparr>)"
  by (simp add: getRow_def getBinaryRow_def)

text \<open>
  C4. The claim is that in a debug build \<open>getRow(i)\<close> and \<open>getBinaryRow(i)\<close> raise
  exactly when \<open>i \<ge> rowCount\<close>. The code does not: on the table of three rows,
  \<open>getRow(5)\<close> and \<open>getBinaryRow(5)\<close> return a Row at index 5 and do not raise; on a
  table of one row, \<open>getRow(0)\<close> and \<open>getBinaryRow(0)\<close> raise.
\<close>

theorem getRow_bounds_check_failing_inputs:
  "getRow True people 5 (new_Row 7 5 False) = Inr \<lparr>ident = 7, index = 5, binary = False\<rparr>
   \<and> getBinaryRow True people 5 (new_Row 7 5 True) = Inr \<lparr>ident = 7, index = 5, binary = True\<rparr>
   \<and> getRow True (people\<lparr>rowCount := 1\<rparr>) 0 (new_Row 7 0 False) = Inl IndexOutOfBounds
   \<and> getBinaryRow True (people\<lparr>rowCount := 1\<rparr>) 0 (new_Row 7 0 True) = Inl IndexOutOfBounds"
  by (simp add: getRow_def getBinaryRow_def not_index_def people_def new_Row_def)

section \<open>Properties of the result writer\<close>

lemma names_cong: "columns a = columns b \<Longrightarrow> names a = names b"
  by (simp add: names_def)

lemma columns_setter [simp]: "columns (setter env k dst v res) = columns res"
  by (simp add: setter_def)

lemma rowCount_setter [simp]: "rowCount (setter env k dst v res) = rowCount res"
  by (simp add: setter_def)

lemma cells_setter_other: "j \<noteq> dst \<Longrightarrow> cells (setter env k dst v res) j = cells res j"
  by (simp add: setter_def)

lemma field_writer_described:
  assumes "generateFieldWriter env res src d = Inr w" and "columns acc = columns res"
  shows "described_entry truthy env src d r dst acc = Inr (w r r dst acc)"
  using assms names_cong [OF assms(2)]
  by (auto simp: generateFieldWriter_def described_entry_def resultWriterField_def
      resultWriterRowIndex_def split: if_splits option.splits)

lemma field_writer_keeps:
  assumes "generateFieldWriter env res src d = Inr w"
  shows "columns (w b i dst acc) = columns acc \<and> rowCount (w b i dst acc) = rowCount acc
     \<and> (\<forall>j. j \<noteq> dst \<longrightarrow> cells (w b i dst acc) j = cells acc j)"
  using assms
  by (auto simp: generateFieldWriter_def resultWriterField_def resultWriterRowIndex_def
      cells_setter_other split: if_splits option.splits)

lemma writers_described:
  assumes "collect (generateFieldWriter env res src) ds = Inr ws" and "columns acc = columns res"
  shows "described_entries truthy env src ds r dst acc = Inr (fold (\<lambda>w a. w r r dst a) ws acc)"
  using assms
proof (induction ds arbitrary: ws acc)
  case Nil
  then show ?case by simp
next
  case (Cons d ds)
  from Cons.prems(1) obtain w ws' where w: "generateFieldWriter env res src d = Inr w"
    and ws': "collect (generateFieldWriter env res src) ds = Inr ws'" and ws: "ws = w # ws'"
    by (auto split: sum.splits)
  have e: "described_entry truthy env src d r dst acc = Inr (w r r dst acc)"
    using field_writer_described [OF w Cons.prems(2)] .
  have c: "columns (w r r dst acc) = columns res"
    using field_writer_keeps [OF w, of r r dst acc] Cons.prems(2) by simp
  show ?case
    using Cons.IH [OF ws' c] e ws by simp
qed

lemma writers_keep:
  assumes "collect (generateFieldWriter env res src) ds = Inr ws"
  shows "rowCount (fold (\<lambda>w a. w b i dst a) ws acc) = rowCount acc
     \<and> (\<forall>j. j \<noteq> dst \<longrightarrow> cells (fold (\<lambda>w a. w b i dst a) ws acc) j = cells acc j)"
  using assms
proof (induction ds arbitrary: ws acc)
  case Nil
  then show ?case by simp
next
  case (Cons d ds)
  from Cons.prems(1) obtain w ws' where w: "generateFieldWriter env res src d = Inr w"
    and ws': "collect (generateFieldWriter env res src) ds = Inr ws'" and ws: "ws = w # ws'"
    by (auto split: sum.splits)
  show ?case
    using Cons.IH [OF ws', of "w b i dst acc"] field_writer_keeps [OF w, of b i dst acc] ws
    by simp
qed

text \<open>
  C3, as amended. When the writer compiles, a call for the source row at index \<open>r\<close>
  does what the description says, with truthiness of \<open>as\<close> as the test: it takes the
  row \<open>addRows(1)\<close> returns (the row count goes up by one, and no other row is
  written), then for each entry in order it copies the source column into the result
  column \<open>as\<close> when \<open>as\<close> is truthy, and writes \<open>r\<close> into the column with the empty
  name otherwise.
\<close>

theorem result_writer_follows_description:
  assumes "written_row env debug fresh res description src r = Inr res'"
  shows "described_row truthy env src description r res = Inr res'
    \<and> rowCount res' = rowCount res + 1
    \<and> (\<forall>j. j \<noteq> unat (rowCount res) \<longrightarrow> cells res' j = cells res j)"
proof -
  from assms obtain ws where ws: "collect (generateFieldWriter env res src) description = Inr ws"
    and res': "res' = resultWriter ws r r res"
    by (auto simp: written_row_def generateResultWriter_def split: sum.splits)
  have r1: "res' = fold (\<lambda>w a. w r r (unat (rowCount res)) a) ws (res\<lparr>rowCount := rowCount res + 1\<rparr>)"
    by (simp add: res' resultWriter_def addRows_def)
  have "described_row truthy env src description r res = Inr res'"
    unfolding described_row_def r1
    by (rule writers_described [OF ws]) simp
  moreover have "rowCount res' = rowCount res + 1"
    unfolding r1 using writers_keep [OF ws] by simp
  moreover have "\<forall>j. j \<noteq> unat (rowCount res) \<longrightarrow> cells res' j = cells res j"
    unfolding r1 using writers_keep [OF ws, of r r "unat (rowCount res)" "res\<lparr>rowCount := rowCount res + 1\<rparr>"] by simp
  ultimately show ?thesis by blast
qed

theorem result_writer_follows_description_witness:
  "described_row truthy sample_env people S6_description 2 result_table0 =
     written_row sample_env False 0 result_table0 S6_description people 2
   \<and> map_sum id (\<lambda>t. (rowCount t, cells t 0 0, cells t 0 1))
       (written_row sample_env False 0 result_table0 S6_description people 2) =
     Inr (1, Number (Fin 3), Number (Fin 2))"
proof -
  have "\<not> isl (written_row sample_env False 0 result_table0 S6_description people 2)"
    by code_simp
  then obtain res' where r: "written_row sample_env False 0 result_table0 S6_description people 2 = Inr res'"
    by (cases "written_row sample_env False 0 result_table0 S6_description people 2") auto
  have v: "map_sum id (\<lambda>t. (rowCount t, cells t 0 0, cells t 0 1))
       (written_row sample_env False 0 result_table0 S6_description people 2) =
     Inr (1, Number (Fin 3), Number (Fin 2))"
    by code_simp
  show ?thesis
    using result_writer_follows_description [OF r] r v by simp
qed

text \<open>
  C3 as stated (the test being that \<open>as\<close> is present) fails on an entry whose \<open>as\<close>
  is the empty string: for the source row at index 2, whose \<open>id\<close> is 3, the writer puts
  2 into the column with the empty name, where a copy of \<open>id\<close> would put 3.
\<close>

theorem empty_as_counterexample:
  "map_sum id (\<lambda>t. cells t 0 1)
      (written_row sample_env False 0 result_table0 [\<lparr>column = ''id'', as_field = Str []\<rparr>] people 2) =
     Inr (Number (Fin 2))
   \<and> map_sum id (\<lambda>t. cells t 0 1)
      (described_row is_present sample_env people [\<lparr>column = ''id'', as_field = Str []\<rparr>] 2 result_table0) =
     Inr (Number (Fin 3))"
  by code_simp

lemma collect_cong_at:
  "f d = f d' \<Longrightarrow> collect f (xs @ d # ys) = collect f (xs @ d' # ys)"
  by (induction xs) (simp_all split: sum.splits)

text \<open>
  C10. An entry whose \<open>as\<close> is falsy (the empty string, \<open>null\<close>, \<open>false\<close>, 0,
  \<open>NaN\<close>) compiles to the same field writer as the entry with \<open>as\<close> absent, and so
  a description with the one compiles to the same writer as with the other: the writer
  that stores the index argument in the column with the empty name.
\<close>

theorem falsy_as_is_absent_as:
  assumes "\<not> truthy a"
  shows "generateFieldWriter env res src \<lparr>column = c, as_field = a\<rparr> =
      generateFieldWriter env res src \<lparr>column = c, as_field = Undefined\<rparr>
    \<and> generateResultWriter env debug fresh res (ds1 @ \<lparr>column = c, as_field = a\<rparr> # ds2) src =
      generateResultWriter env debug fresh res (ds1 @ \<lparr>column = c, as_field = Undefined\<rparr> # ds2) src
    \<and> generateFieldWriter env res src \<lparr>column = c, as_field = a\<rparr> =
      (case names res [] of None \<Rightarrow> Inl TypeError | Some kD \<Rightarrow> Inr (resultWriterRowIndex env kD))
    \<and> cells (resultWriterRowIndex env kD b i dst acc) dst kD =
        stored env (ctype (columns acc ! kD)) (Number (Fin (of_nat i)))"
proof -
  have f: "generateFieldWriter env res src \<lparr>column = c, as_field = a\<rparr> =
      generateFieldWriter env res src \<lparr>column = c, as_field = Undefined\<rparr>"
    using assms by (simp add: generateFieldWriter_def)
  have "collect (generateFieldWriter env res src) (ds1 @ \<lparr>column = c, as_field = a\<rparr> # ds2) =
      collect (generateFieldWriter env res src) (ds1 @ \<lparr>column = c, as_field = Undefined\<rparr> # ds2)"
    by (rule collect_cong_at [where f = "generateFieldWriter env res src", OF f])
  then have g: "generateResultWriter env debug fresh res (ds1 @ \<lparr>column = c, as_field = a\<rparr> # ds2) src =
      generateResultWriter env debug fresh res (ds1 @ \<lparr>column = c, as_field = Undefined\<rparr> # ds2) src"
    unfolding generateResultWriter_def by (simp only:)
  have h: "generateFieldWriter env res src \<lparr>column = c, as_field = a\<rparr> =
      (case names res [] of None \<Rightarrow> Inl TypeError | Some kD \<Rightarrow> Inr (resultWriterRowIndex env kD))"
    using assms by (simp add: generateFieldWriter_def)
  have k: "cells (resultWriterRowIndex env kD b i dst acc) dst kD =
        stored env (ctype (columns acc ! kD)) (Number (Fin (of_nat i)))"
    by (simp add: resultWriterRowIndex_def setter_def)
  from f g h k show ?thesis by blast
qed

theorem falsy_as_is_absent_as_witness:
  "\<not> truthy (Str []) \<and> \<not> truthy Null \<and> \<not> truthy (Boolean False) \<and> \<not> truthy (Num (Fin 0)) \<and> \<not> truthy (Num NaN)
   \<and> generateFieldWriter sample_env result_table0 people \<lparr>column = ''id'', as_field = Str []\<rparr> =
       Inr (resultWriterRowIndex sample_env 1)
   \<and> map_sum id (\<lambda>t. (rowCount t, cells t 0 0, cells t 0 1))
       (written_row sample_env False 0 result_table0 [\<lparr>column = ''id'', as_field = Str []\<rparr>] people 2) =
     Inr (1, Number (Fin 0), Number (Fin 2))"
proof -
  have t: "\<not> truthy (Str [])" by simp
  have n: "names result_table0 [] = Some 1"
    by (simp add: names_def result_table0_def upt_rec)
  have v: "map_sum id (\<lambda>t. (rowCount t, cells t 0 0, cells t 0 1))
       (written_row sample_env False 0 result_table0 [\<lparr>column = ''id'', as_field = Str []\<rparr>] people 2) =
     Inr (1, Number (Fin 0), Number (Fin 2))"
    by code_simp
  have w: "generateFieldWriter sample_env result_table0 people \<lparr>column = ''id'', as_field = Str []\<rparr> =
      (case names result_table0 [] of None \<Rightarrow> Inl TypeError
       | Some kD \<Rightarrow> Inr (resultWriterRowIndex sample_env kD))"
    using falsy_as_is_absent_as [OF t, where env = sample_env and res = result_table0 and src = people
        and c = "''id''"]
    by blast
  show ?thesis
    using w n v by simp
qed

section \<open>Properties of the scan loop\<close>

lemma upt_split: "i \<le> j \<Longrightarrow> j \<le> k \<Longrightarrow> [i..<k] = [i..<j] @ [j..<k]"
  by (metis le_add_diff_inverse upt_add_eq_append)

lemma batch_fold:
  assumes "\<forall>r<n. \<forall>s. \<exists>v s'. test r s = (Inr v, s')"
  shows "batch test wr i n s = (None, fold (visit test wr) [i..<n] s)"
  using assms
proof (induction test wr i n s rule: batch.induct)
  case (1 test wr r n s)
  show ?case
  proof (cases "r < n")
    case True
    with "1.prems" obtain v s' where t: "test r s = (Inr v, s')" by blast
    have u: "[r..<n] = r # [Suc r..<n]" using True by (simp add: upt_conv_Cons)
    have vs: "visit test wr r s = (if v then wr r s' else s')" by (simp add: visit_def t)
    have "batch test wr r n s = batch test wr (Suc r) n (if v then wr r s' else s')"
      using True t by (subst batch.simps) simp
    also have "\<dots> = (None, fold (visit test wr) [Suc r..<n] (if v then wr r s' else s'))"
      using "1.IH" [OF True t [symmetric] refl "1.prems"] by simp
    finally show ?thesis using u vs by simp
  next
    case False
    then show ?thesis by (subst batch.simps) simp
  qed
qed

lemma scan_loop_from:
  assumes b: "0 < b" and bound: "nrows + b \<le> 2 ^ 32"
    and total: "\<forall>r<nrows. \<forall>s. \<exists>v s'. test r s = (Inr v, s')"
    and c: "unat c = i"
  shows "\<exists>c'. scan_loop test wr b nrows (c, s) =
           Some (None, c', fold (visit test wr) [min i nrows..<nrows] s)"
  using c
proof (induction "nrows - i" arbitrary: i c s rule: less_induct)
  case less
  show ?case
  proof (cases "i < nrows")
    case True
    let ?n = "min (i + b) nrows"
    have tb: "\<forall>r<?n. \<forall>s. \<exists>v s'. test r s = (Inr v, s')" using total by simp
    have bt: "batch test wr i ?n s = (None, fold (visit test wr) [i..<?n] s)"
      by (rule batch_fold [OF tb])
    have "i + b < 2 ^ 32" using True bound by simp
    then have ub: "unat (of_nat b :: 32 word) = b"
      by (simp add: unat_of_nat)
    have next_c: "unat (c + of_nat b) = i + b"
      using unat_add_lem [of c "of_nat b :: 32 word"] ub less.prems \<open>i + b < 2 ^ 32\<close>
      by simp
    have m: "nrows - (i + b) < nrows - i" using True b by simp
    from less.hyps [OF m next_c] obtain c' where
      rec: "scan_loop test wr b nrows (c + of_nat b, fold (visit test wr) [i..<?n] s) =
        Some (None, c', fold (visit test wr) [?n..<nrows] (fold (visit test wr) [i..<?n] s))"
      by blast
    have "[i..<nrows] = [i..<?n] @ [?n..<nrows]"
      using True by (intro upt_split) simp_all
    then have f: "fold (visit test wr) [?n..<nrows] (fold (visit test wr) [i..<?n] s) =
        fold (visit test wr) [i..<nrows] s"
      by simp
    have "scan_loop test wr b nrows (c, s) =
        scan_loop test wr b nrows (c + of_nat b, fold (visit test wr) [i..<?n] s)"
      using True bt less.prems by (subst scan_loop.simps) (simp add: Atomize_add_def)
    with rec f True show ?thesis by (simp add: min_def)
  next
    case False
    then have "scan_loop test wr b nrows (c, s) = Some (None, c + of_nat b, s)"
      using less.prems by (subst scan_loop.simps) (simp add: Atomize_add_def)
    with False show ?thesis by (simp add: min_def)
  qed
qed

lemma scan_loop_stuck:
  assumes "scan_loop test wr b nrows cs = Some y"
  shows "\<not> stuck test b nrows cs"
proof (rule scan_loop.raw_induct [where P = "\<lambda>test wr b nrows cs y. \<not> stuck test b nrows cs", OF _ assms])
  fix loop :: "(nat \<Rightarrow> 'a \<Rightarrow> (error + bool) \<times> 'a) \<Rightarrow> (nat \<Rightarrow> 'a \<Rightarrow> 'a) \<Rightarrow> nat \<Rightarrow> nat \<Rightarrow> 32 word \<times> 'a \<Rightarrow>
      (error option \<times> 32 word \<times> 'a) option"
    and test wr b nrows cs y
  assume IH: "\<And>test wr b nrows cs y. loop test wr b nrows cs = Some y \<Longrightarrow> \<not> stuck test b nrows cs"
    and step: "(case Atomize_add (fst cs) b of
        (i, c) \<Rightarrow>
          if i < nrows then
            (case batch test wr i (min (i + b) nrows) (snd cs) of
               (None, s') \<Rightarrow> loop test wr b nrows (c, s')
             | (Some e, s') \<Rightarrow> Some (Some e, c, s'))
          else Some (None, c, snd cs)) = Some y"
  show "\<not> stuck test b nrows cs"
  proof
    assume inv: "stuck test b nrows cs"
    then have tb: "\<forall>r<min (0 + b) nrows. \<forall>s. \<exists>v s'. test r s = (Inr v, s')"
      by (simp add: stuck_def)
    have bt: "batch test wr 0 (min (0 + b) nrows) (snd cs) =
        (None, fold (visit test wr) [0..<min (0 + b) nrows] (snd cs))"
      by (rule batch_fold [OF tb])
    have "loop test wr b nrows (0, fold (visit test wr) [0..<min (0 + b) nrows] (snd cs)) = Some y"
      using step inv bt by (simp add: Atomize_add_def stuck_def)
    then have "\<not> stuck test b nrows (0, fold (visit test wr) [0..<min (0 + b) nrows] (snd cs))"
      by (rule IH)
    moreover have "stuck test b nrows (0, fold (visit test wr) [0..<min (0 + b) nrows] (snd cs))"
      using inv unfolding stuck_def by simp
    ultimately show False by contradiction
  qed
qed

lemma fold_visit_log:
  "fold (visit (\<lambda>r s. (Inr (P r), s)) log_row) rs s = s @ filter P rs"
  by (induction rs arbitrary: s) (simp_all add: visit_def log_row_def)

text \<open>
  C2, as amended. For one worker whose cursor starts at 0, a positive batch size \<open>b\<close>
  with \<open>rowCount + b \<le> 2 ^ 32\<close> (the 32-bit cursor does not wrap before the loop
  ends) and a test that does not raise: the loop returns, and it has visited the rows
  0, ..., \<open>rowCount - 1\<close> once each in ascending order, calling the writer on exactly
  those where the test was true. The state it leaves does not depend on \<open>b\<close>; with a
  test \<open>P\<close> and the recording writer, the rows written are \<open>filter P [0..<rowCount]\<close>.
  Within a batch the rows are visited in ascending order, and a claim that starts at
  or beyond \<open>rowCount\<close> ends the loop.
\<close>

theorem scan_loop_single_worker:
  assumes "0 < b" and "nrows + b \<le> 2 ^ 32"
    and "\<forall>r<nrows. \<forall>s. \<exists>v s'. test r s = (Inr v, s')"
  shows "(\<exists>c. scan_loop test wr b nrows (0, s) = Some (None, c, fold (visit test wr) [0..<nrows] s))
    \<and> (\<exists>c. scan_loop (\<lambda>r s. (Inr (P r), s)) log_row b nrows (0, []) = Some (None, c, filter P [0..<nrows]))
    \<and> batch test wr i (min (i + b) nrows) s = (None, fold (visit test wr) [i..<min (i + b) nrows] s)
    \<and> (nrows \<le> unat c0 \<longrightarrow> scan_loop test wr b nrows (c0, s) = Some (None, c0 + of_nat b, s))"
proof -
  have a: "\<exists>c. scan_loop test wr b nrows (0, s) = Some (None, c, fold (visit test wr) [0..<nrows] s)"
    using scan_loop_from [OF assms(1,2,3), of 0 0 wr s] by simp
  have "\<forall>r<nrows. \<forall>s. \<exists>v s'. (\<lambda>r s. (Inr (P r), s :: nat list)) r s = (Inr v, s')" by simp
  from scan_loop_from [OF assms(1,2) this, of 0 0 log_row "[]"]
  have b: "\<exists>c. scan_loop (\<lambda>r s. (Inr (P r), s)) log_row b nrows (0, []) = Some (None, c, filter P [0..<nrows])"
    by (simp add: fold_visit_log)
  have "\<forall>r<min (i + b) nrows. \<forall>s. \<exists>v s'. test r s = (Inr v, s')" using assms(3) by simp
  then have c: "batch test wr i (min (i + b) nrows) s = (None, fold (visit test wr) [i..<min (i + b) nrows] s)"
    by (rule batch_fold)
  have d: "nrows \<le> unat c0 \<Longrightarrow> scan_loop test wr b nrows (c0, s) = Some (None, c0 + of_nat b, s)"
    by (subst scan_loop.simps) (simp add: Atomize_add_def)
  from a b c d show ?thesis by blast
qed

theorem scan_loop_single_worker_witness:
  "(\<exists>c. scan_loop (\<lambda>r s. (Inr (even r), s)) log_row 2 5 (0, []) = Some (None, c, [0, 2, 4]))
   \<and> (\<exists>c. scan_loop (\<lambda>r s. (Inr (even r), s)) log_row 7 5 (0, []) = Some (None, c, [0, 2, 4]))
   \<and> scan_loop (\<lambda>r s. (Inr (even r), s)) log_row 2 5 (6, [0, 2, 4]) = Some (None, 8, [0, 2, 4])"
proof -
  have h: "(0::nat) < 2" "(5::nat) + 2 \<le> 2 ^ 32" "(0::nat) < 7" "(5::nat) + 7 \<le> 2 ^ 32"
    "\<forall>r<5. \<forall>s. \<exists>v s'. (\<lambda>r s. (Inr (even r), s :: nat list)) r s = (Inr v, s')"
    by simp_all
  have f: "filter even [0..<5] = [0, 2, 4::nat]" by code_simp
  have u: "(5::nat) \<le> unat (6 :: 32 word)" by simp
  from scan_loop_single_worker [OF h(1,2,5), where P = even and ?c0.0 = 6 and s = "[0, 2, 4]" and wr = log_row]
    scan_loop_single_worker [OF h(3,4,5), where P = even]
    f u
  show ?thesis by simp
qed

text \<open>
  C2 as stated fails for the batch size \<open>2 ^ 32\<close>: the addition to the 32-bit cursor
  wraps to the value before it, every claim starts at row 0, and the loop over a table
  of one row never returns (the row is tested and written again in every round).
\<close>

theorem batch_size_wraps_counterexample:
  "scan_loop (\<lambda>r s. (Inr True, s)) log_row 4294967296 1 (0, []) = None"
proof (cases "scan_loop (\<lambda>r s. (Inr True, s)) log_row 4294967296 1 (0, [])")
  case None
  then show ?thesis .
next
  case (Some y)
  from scan_loop_stuck [OF this] show ?thesis by (auto simp: stuck_def)
qed

section \<open>Properties of \<open>process\<close>\<close>

lemma fold_visit_process:
  assumes "\<forall>r\<in>set rs. \<exists>v. T r = Inr v"
  shows "\<exists>row'. fold (visit (row_test T) (row_writer W)) rs (row, res) =
           (row', fold (\<lambda>r. W r r) (filter (\<lambda>r. T r = Inr True) rs) res)"
  using assms
proof (induction rs arbitrary: row res)
  case Nil
  then show ?case by simp
next
  case (Cons r rs)
  then obtain v where v: "T r = Inr v" by auto
  have step: "visit (row_test T) (row_writer W) r (row, res) =
      (row\<lparr>index := r\<rparr>, if v then W r r res else res)"
    using v by (simp add: visit_def row_test_def row_writer_def Let_def)
  from Cons.IH [of "row\<lparr>index := r\<rparr>" "if v then W r r res else res"] Cons.prems
  obtain row' where "fold (visit (row_test T) (row_writer W)) rs (row\<lparr>index := r\<rparr>, if v then W r r res else res) =
      (row', fold (\<lambda>r. W r r) (filter (\<lambda>r. T r = Inr True) rs) (if v then W r r res else res))"
    by auto
  with step v show ?case by auto
qed

lemma process_scan:
  assumes T: "generateExpressionTester env (mTable p) (rules cfg) (mode cfg) = Inr T"
    and W: "generateResultWriter env debug fresh (resultTable sh) (resultDescription cfg) (mTable p) = Inr W"
    and total: "\<forall>r<unat (rowCount (mTable p)). \<exists>v. T r = Inr v"
    and b: "0 < rowBatchSize cfg" "unat (rowCount (mTable p)) + rowBatchSize cfg \<le> 2 ^ 32"
    and c: "cursor sh = 0"
  shows "\<exists>c row. process env debug fresh p cfg sh =
      Some (None, p\<lparr>mRow := row\<rparr>,
        \<lparr>cursor = c,
         resultTable = fold (\<lambda>r. W r r) (filter (\<lambda>r. T r = Inr True) [0..<unat (rowCount (mTable p))])
           (resultTable sh)\<rparr>)"
proof -
  let ?n = "unat (rowCount (mTable p))"
  have tt: "\<forall>r<?n. \<forall>s. \<exists>v s'. row_test T r s = (Inr v, s')"
    using total by (auto simp: row_test_def Let_def split: prod.splits)
  from scan_loop_from [OF b tt, of 0 0 "row_writer W" "(mRow p, resultTable sh)"]
  obtain c' where sl: "scan_loop (row_test T) (row_writer W) (rowBatchSize cfg) ?n (0, (mRow p, resultTable sh)) =
      Some (None, c', fold (visit (row_test T) (row_writer W)) [0..<?n] (mRow p, resultTable sh))"
    by auto
  have "\<forall>r\<in>set [0..<?n]. \<exists>v. T r = Inr v" using total by simp
  from fold_visit_process [OF this, of W "mRow p" "resultTable sh"]
  obtain row' where fv: "fold (visit (row_test T) (row_writer W)) [0..<?n] (mRow p, resultTable sh) =
      (row', fold (\<lambda>r. W r r) (filter (\<lambda>r. T r = Inr True) [0..<?n]) (resultTable sh))"
    by blast
  have "process env debug fresh p cfg sh =
      Some (None, p\<lparr>mRow := row'\<rparr>,
        \<lparr>cursor = c', resultTable = fold (\<lambda>r. W r r) (filter (\<lambda>r. T r = Inr True) [0..<?n]) (resultTable sh)\<rparr>)"
    using T W sl fv c by (simp add: process_def)
  then show ?thesis by blast
qed

lemma valuesLoop_first:
  "i \<le> n \<Longrightarrow> valuesLoop (\<lambda>j. Inr (P j)) n found i =
     Inr (case find P [i..<n] of None \<Rightarrow> (n, \<not> found) | Some j \<Rightarrow> (j, found))"
proof (induction "\<lambda>j. (Inr (P j) :: error + bool)" n found i rule: valuesLoop.induct)
  case (1 n found i)
  show ?case
  proof (cases "i < n")
    case True
    then have u: "[i..<n] = i # [Suc i..<n]" by (simp add: upt_conv_Cons)
    show ?thesis
    proof (cases "P i")
      case True
      with \<open>i < n\<close> u show ?thesis by (subst valuesLoop.simps) simp
    next
      case False
      have "valuesLoop (\<lambda>j. Inr (P j)) n found i = valuesLoop (\<lambda>j. Inr (P j)) n found (Suc i)"
        using False \<open>i < n\<close> by (subst valuesLoop.simps) simp
      also have "\<dots> = Inr (case find P [Suc i..<n] of None \<Rightarrow> (n, \<not> found) | Some j \<Rightarrow> (j, found))"
        using "1.hyps" [OF \<open>i < n\<close> refl] False \<open>i < n\<close> by simp
      finally show ?thesis using False u by simp
    qed
  next
    case False
    with "1.prems" have "i = n" by simp
    then show ?thesis by (subst valuesLoop.simps) simp
  qed
qed

lemma find_list_ex:
  "(find (\<lambda>j. Q (vs ! j)) [0..<length vs] \<noteq> None) = list_ex Q vs"
proof -
  have "(\<exists>j<length vs. Q (vs ! j)) = (\<exists>x\<in>set vs. Q x)"
    by (metis in_set_conv_nth)
  then show ?thesis
    by (simp add: find_None_iff list_ex_iff)
qed

lemma filter_upt_hit:
  "i \<le> a \<Longrightarrow> a < j \<Longrightarrow> P a \<Longrightarrow> filter P [i..<j] = filter P [i..<a] @ a # filter P [Suc a..<j]"
proof -
  assume a: "i \<le> a" "a < j" "P a"
  have "[i..<j] = [i..<a] @ [a..<j]"
    using a by (intro upt_split) simp_all
  also have "[a..<j] = a # [Suc a..<j]" using a by (simp add: upt_conv_Cons)
  finally show ?thesis using a by simp
qed

lemma filter_upt_none:
  "(\<And>r. i \<le> r \<Longrightarrow> r < j \<Longrightarrow> \<not> P r) \<Longrightarrow> filter P [i..<j] = []"
  by (simp add: filter_empty_conv)

lemma filterIn_numbers:
  "filterIn getter vs r = Inr (list_ex (strict_eq (getter r)) vs)"
proof -
  have "valuesLoop (\<lambda>j. Inr (strict_eq (getter r) (vs ! j))) (length vs) True 0 =
      Inr (case find (\<lambda>j. strict_eq (getter r) (vs ! j)) [0..<length vs] of
             None \<Rightarrow> (length vs, \<not> True) | Some j \<Rightarrow> (j, True))"
    by (rule valuesLoop_first) simp
  moreover have "(find (\<lambda>j. strict_eq (getter r) (vs ! j)) [0..<length vs] \<noteq> None) =
      list_ex (strict_eq (getter r)) vs"
    by (rule find_list_ex)
  ultimately show ?thesis
    by (auto simp: filterIn_def result_of_def split: option.splits)
qed


lemma keep_three: "filter (\<lambda>r. r = 7 \<or> r = 42 \<or> r = 999 \<or> r = 1000) [0..<1000] = [7, 42, 999::nat]"
proof -
  let ?P = "\<lambda>r::nat. r = 7 \<or> r = 42 \<or> r = 999 \<or> r = 1000"
  have "filter ?P [0..<1000] = filter ?P [0..<999] @ 999 # filter ?P [Suc 999..<1000]"
    by (rule filter_upt_hit) simp_all
  also have "filter ?P [Suc 999..<1000] = []" by (rule filter_upt_none) simp
  also have "filter ?P [0..<999] = filter ?P [0..<42] @ 42 # filter ?P [Suc 42..<999]"
    by (rule filter_upt_hit) simp_all
  also have "filter ?P [Suc 42..<999] = []" by (rule filter_upt_none) simp
  also have "filter ?P [0..<42] = filter ?P [0..<7] @ 7 # filter ?P [Suc 7..<42]"
    by (rule filter_upt_hit) simp_all
  also have "filter ?P [Suc 7..<42] = []" by (rule filter_upt_none) simp
  also have "filter ?P [0..<7] = []" by (rule filter_upt_none) simp
  finally show ?thesis by simp
qed

text \<open>
  C7, as amended. For one worker whose cursor starts at 0, a positive batch size with
  \<open>1000 + rowBatchSize \<le> 2 ^ 32\<close> and a result writer that compiles: on a table of
  1000 rows whose \<open>id\<close> column (a numeric column) holds the row's index, with a
  \<open>parseFloat\<close> that reads the four strings as 7, 42, 999 and 1000, a scan with the
  DNF expression of S4 returns, and it has called the writer for the rows 7, 42 and
  999, in this order, and for no other row. The rule's values are parsed when the rule
  is compiled: the tester holds the numbers. The loop of \<open>filterIn\<close> stops at the
  first listed value strictly equal to the field, leaving its counter there and
  returning true, and returns false with the counter at the end when there is none.
\<close>

theorem in_rule_scan:
  assumes env: "parseFloat env ''7'' = Fin 7" "parseFloat env ''42'' = Fin 42"
      "parseFloat env ''999'' = Fin 999" "parseFloat env ''1000'' = Fin 1000"
    and tbl: "rowCount (mTable p) = 1000" "names (mTable p) ''id'' = Some k"
      "ctype (columns (mTable p) ! k) \<noteq> ByteString"
      "\<forall>r<1000. cells (mTable p) r k = Number (Fin (of_nat r))"
    and cfg: "rules cfg = Some S4_expression" "isDNF (mode cfg)"
    and W: "generateResultWriter env debug fresh (resultTable sh) (resultDescription cfg) (mTable p) = Inr W"
    and b: "0 < rowBatchSize cfg" "1000 + rowBatchSize cfg \<le> 2 ^ 32"
    and c: "cursor sh = 0"
  shows "(\<exists>c row. process env debug fresh p cfg sh =
            Some (None, p\<lparr>mRow := row\<rparr>,
              \<lparr>cursor = c, resultTable = W 999 999 (W 42 42 (W 7 7 (resultTable sh)))\<rparr>))
    \<and> generateRuleTester env (mTable p) S4_rule =
        Inr (Some (filterIn (\<lambda>r. cells (mTable p) r k) [Fin 7, Fin 42, Fin 999, Fin 1000]))
    \<and> valuesLoop (\<lambda>j. Inr (strict_eq x (vs ! j))) (length vs) True 0 =
        Inr (case find (\<lambda>j. strict_eq x (vs ! j)) [0..<length vs] of
               None \<Rightarrow> (length vs, False) | Some j \<Rightarrow> (j, True))"
proof -
  let ?g = "\<lambda>r. cells (mTable p) r k"
  let ?vs = "[Fin 7, Fin 42, Fin 999, Fin 1000]"
  have rt: "generateRuleTester env (mTable p) S4_rule = Inr (Some (filterIn ?g ?vs))"
    using env tbl(2,3) by (simp add: generateRuleTester_def S4_rule_def)
  then have ct: "generateClauseTester env (mTable p) [S4_rule] (mode cfg) =
      Inr (ruleTesterDNF [Some (filterIn ?g ?vs)])"
    using cfg(2) by (simp add: generateClauseTester_def)
  define T where "T = filterTesterDNF [ruleTesterDNF [Some (filterIn ?g ?vs)]]"
  have T: "generateExpressionTester env (mTable p) (rules cfg) (mode cfg) = Inr T"
    using ct cfg by (simp add: generateExpressionTester_def S4_expression_def T_def)
  have val: "T r = Inr (r = 7 \<or> r = 42 \<or> r = 999 \<or> r = 1000)" if "r < 1000" for r
    using that tbl(4) by (simp add: T_def filterIn_numbers num_eq_def)
  have n: "unat (rowCount (mTable p)) = 1000" using tbl(1) by simp
  have total: "\<forall>r<unat (rowCount (mTable p)). \<exists>v. T r = Inr v"
    using val n by simp
  have "filter (\<lambda>r. T r = Inr True) [0..<1000] =
      filter (\<lambda>r. r = 7 \<or> r = 42 \<or> r = 999 \<or> r = 1000) [0..<1000]"
    by (rule filter_cong) (simp_all add: val)
  then have f: "filter (\<lambda>r. T r = Inr True) [0..<unat (rowCount (mTable p))] = [7, 42, 999]"
    using keep_three n by simp
  have bb: "unat (rowCount (mTable p)) + rowBatchSize cfg \<le> 2 ^ 32" using b(2) n by simp
  from process_scan [OF T W total b(1) bb c]
  have p1: "\<exists>c row. process env debug fresh p cfg sh =
            Some (None, p\<lparr>mRow := row\<rparr>,
              \<lparr>cursor = c, resultTable = W 999 999 (W 42 42 (W 7 7 (resultTable sh)))\<rparr>)"
    unfolding f by simp
  have p3: "valuesLoop (\<lambda>j. Inr (strict_eq x (vs ! j))) (length vs) True 0 =
        Inr (case find (\<lambda>j. strict_eq x (vs ! j)) [0..<length vs] of
               None \<Rightarrow> (length vs, False) | Some j \<Rightarrow> (j, True))"
    using valuesLoop_first [of 0 "length vs" "\<lambda>j. strict_eq x (vs ! j)" True]
    by (simp split: option.splits)
  from p1 rt p3 show ?thesis by blast
qed


theorem in_rule_scan_witness:
  "map_option (\<lambda>(e, p, sh). (e, result_rows (resultTable sh)))
     (process sample_env False 0 ids_processor S4_config \<lparr>cursor = 0, resultTable = result_table0\<rparr>) =
   Some (None, [[Number (Fin 7), Number (Fin 7)], [Number (Fin 42), Number (Fin 42)],
                [Number (Fin 999), Number (Fin 999)]])"
proof -
  let ?W = "resultWriter [resultWriterField sample_env ids_table 0 0, resultWriterRowIndex sample_env 1]"
  have env: "parseFloat sample_env ''7'' = Fin 7" "parseFloat sample_env ''42'' = Fin 42"
      "parseFloat sample_env ''999'' = Fin 999" "parseFloat sample_env ''1000'' = Fin 1000"
    by (simp_all add: sample_env_def sample_parseFloat_def)
  have tbl: "rowCount (mTable ids_processor) = 1000" "names (mTable ids_processor) ''id'' = Some 0"
      "ctype (columns (mTable ids_processor) ! 0) \<noteq> ByteString"
      "\<forall>r<1000. cells (mTable ids_processor) r 0 = Number (Fin (of_nat r))"
    by (simp_all add: ids_processor_def ids_table_def names_def)
  have cfg: "rules S4_config = Some S4_expression" "isDNF (mode S4_config)"
      "0 < rowBatchSize S4_config" "1000 + rowBatchSize S4_config \<le> 2 ^ 32"
    by (simp_all add: S4_config_def)
  have W: "generateResultWriter sample_env False 0 (resultTable \<lparr>cursor = 0, resultTable = result_table0\<rparr>)
      (resultDescription S4_config) (mTable ids_processor) = Inr ?W"
    by (simp add: generateResultWriter_def getRow_def generateFieldWriter_def S4_config_def
        S6_description_def names_def result_table0_def ids_processor_def ids_table_def upt_rec)
  have c: "cursor \<lparr>cursor = 0, resultTable = result_table0\<rparr> = 0" by simp
  have v: "result_rows (?W 999 999 (?W 42 42 (?W 7 7 result_table0))) =
      [[Number (Fin 7), Number (Fin 7)], [Number (Fin 42), Number (Fin 42)],
       [Number (Fin 999), Number (Fin 999)]]"
    by code_simp
  from in_rule_scan [OF env tbl cfg(1,2) W cfg(3,4) c, THEN conjunct1]
  obtain c' row where "process sample_env False 0 ids_processor S4_config \<lparr>cursor = 0, resultTable = result_table0\<rparr> =
      Some (None, ids_processor\<lparr>mRow := row\<rparr>,
        \<lparr>cursor = c', resultTable = ?W 999 999 (?W 42 42 (?W 7 7
           (resultTable \<lparr>cursor = 0, resultTable = result_table0\<rparr>)))\<rparr>)"
    by blast
  then show ?thesis using v by simp
qed

section \<open>Properties of rule testers on typed rows\<close>

lemma names_Some_lt: "names t f = Some k \<Longrightarrow> k < length (columns t)"
proof -
  assume "names t f = Some k"
  then have "(f, k) \<in> set (zip (map name (columns t)) [0..<length (columns t)])"
    unfolding names_def by (rule map_of_SomeD)
  then have "k \<in> set [0..<length (columns t)]" by (rule set_zip_rightD)
  then show ?thesis by simp
qed

lemma typed_row_cell:
  "typed_row t r \<Longrightarrow> k < length (columns t) \<Longrightarrow>
   (ctype (columns t ! k) = ByteString) = is_Bytes (cells t r k)"
  by (simp add: typed_row_def list_all_iff)

lemma is_Bytes_D: "is_Bytes c \<Longrightarrow> \<exists>b. c = Bytes b"
  by (cases c) simp_all

lemma valuesLoop_total:
  "\<exists>i b. valuesLoop (\<lambda>j. Inr (P j)) n found i0 = Inr (i, b)"
proof (cases "i0 \<le> n")
  case True
  then show ?thesis by (auto simp: valuesLoop_first split: option.splits)
next
  case False
  then show ?thesis by (subst valuesLoop.simps) simp
qed

lemma loop_result_total:
  "\<exists>b. result_of (valuesLoop (\<lambda>j. Inr (P j)) n found 0) = Inr b"
proof -
  from valuesLoop_total [of P n found 0] obtain i b where
    "valuesLoop (\<lambda>j. Inr (P j)) n found 0 = Inr (i, b)" by blast
  then show ?thesis by (simp add: result_of_def)
qed

lemma rule_never_raises:
  assumes comp: "generateRuleTester env t ru = Inr f"
    and typed: "rule_typed t ru" and row: "typed_row t r"
  shows "\<exists>b. call f r = Inr b"
proof -
  from comp obtain k where k: "names t (field ru) = Some k"
    by (auto simp: generateRuleTester_def split: option.splits)
  have lt: "k < length (columns t)" using k by (rule names_Some_lt)
  note ty = typed_row_cell [OF row lt]
  show ?thesis
  proof (cases "ctype (columns t ! k) = ByteString")
    case True
    with ty obtain b where b: "cells t r k = Bytes b" using is_Bytes_D by blast
    have eq: "(\<lambda>i. call_equalsCase env (Bytes b) (vs ! i)) = (\<lambda>i. Inr (equalsCase env b (vs ! i)))" for vs
      by simp
    show ?thesis
      using comp k True b typed loop_result_total
      by (cases "operation ru")
        (auto simp: generateRuleTester_def rule_typed_def Let_def filterContains_def filterNotContains_def
          filterIn_ByteString_def filterNotIn_ByteString_def filterEquals_ByteString_def
          filterNotEqual_ByteString_def filterGreaterThan_def filterGreaterThanOrEqual_def
          filterLessThan_def filterLessThanOrEqual_def eq
          split: sum.splits)
  next
    case False
    show ?thesis
      using comp k False typed loop_result_total
      by (cases "operation ru")
        (auto simp: generateRuleTester_def rule_typed_def text_column_def Let_def
          filterIn_def filterNotIn_def filterEquals_def filterNotEqual_def
          filterGreaterThan_def filterGreaterThanOrEqual_def
          filterLessThan_def filterLessThanOrEqual_def
          split: sum.splits)
  qed
qed


lemma collect_all_Inr:
  "collect f xs = Inr ys \<Longrightarrow> x \<in> set xs \<Longrightarrow> \<exists>y. f x = Inr y"
  by (induction xs arbitrary: ys) (auto split: sum.splits)

lemma tester_never_raises:
  assumes comp: "generateExpressionTester env t (Some E) m = Inr T"
    and typed: "\<forall>c\<in>set E. \<forall>ru\<in>set c. rule_typed t ru"
    and row: "typed_row t r"
  shows "\<exists>b. T r = Inr b"
proof (cases E)
  case Nil
  with comp show ?thesis by (auto simp: generateExpressionTester_def filterTesterEmpty_def)
next
  case (Cons c cs)
  then have ne: "E \<noteq> []" by simp
  from comp Cons obtain ts where ts: "collect (\<lambda>c. generateClauseTester env t c m) E = Inr ts"
    by (auto simp: generateExpressionTester_def split: sum.splits)
  have "\<exists>b. rule_result env t ru r = Inr b" if c: "c' \<in> set E" and ru: "ru \<in> set c'" for c' ru
  proof -
    from collect_all_Inr [OF ts c] obtain ct where "generateClauseTester env t c' m = Inr ct" by blast
    then obtain rs where "collect (generateRuleTester env t) c' = Inr rs"
      by (auto simp: generateClauseTester_def split: sum.splits)
    from collect_all_Inr [OF this ru] obtain f where f: "generateRuleTester env t ru = Inr f" by blast
    from rule_never_raises [OF f _ row] typed c ru obtain b where "call f r = Inr b" by blast
    with f show ?thesis by (simp add: rule_result_def)
  qed
  then have "\<forall>c\<in>set E. \<forall>ru\<in>set c. \<exists>b. rule_result env t ru r = Inr b" by blast
  from normal_form [OF ne this, of m] comp show ?thesis by auto
qed






section \<open>Properties of the worker\<close>

lemma process_keeps_table:
  "process env debug fresh p cfg sh = Some (e, p', sh') \<Longrightarrow> mTable p' = mTable p"
  by (auto simp: process_def split: sum.splits option.splits prod.splits)

lemma handler_keeps_processor:
  assumes "filterWorkerOnMessage env debug fresh msg w = Some (e, w')" and "gProcessor w = Some p"
  shows "\<exists>p'. gProcessor w' = Some p' \<and> mTable p' = mTable p"
proof (cases msg)
  case (initialize tbl)
  with assms show ?thesis by (auto simp: filterWorkerOnMessage_def sendError_def)
next
  case (processFilters cfg)
  with assms show ?thesis
    by (auto simp: filterWorkerOnMessage_def sendSuccess_def dest: process_keeps_table
        split: option.splits prod.splits)
next
  case (unrecognized ty)
  with assms show ?thesis by (auto simp: filterWorkerOnMessage_def sendError_def)
qed

lemma run_keeps_processor:
  "run_messages env debug fresh msgs w = Some w' \<Longrightarrow> gProcessor w = Some p \<Longrightarrow>
   \<exists>p'. gProcessor w' = Some p' \<and> mTable p' = mTable p"
proof (induction msgs arbitrary: w p)
  case Nil
  then show ?case by simp
next
  case (Cons msg msgs)
  from Cons.prems(1) obtain e w1 where h: "filterWorkerOnMessage env debug fresh msg w = Some (e, w1)"
    and r: "run_messages env debug fresh msgs w1 = Some w'"
    by (auto split: option.splits)
  from handler_keeps_processor [OF h Cons.prems(2)] obtain p1 where
    p1: "gProcessor w1 = Some p1" "mTable p1 = mTable p" by blast
  from Cons.IH [OF r p1(1)] p1(2) show ?case by auto
qed

text \<open>
  The scan of S4 with a batch size of \<open>2 ^ 32\<close>: the tester and the writer compile,
  the cursor never advances, and \<open>process\<close> never returns.
\<close>

lemma wrapped_S4_scan_never_returns:
  "process sample_env False 0 ids_processor S4_wrap_config \<lparr>cursor = 0, resultTable = result_table0\<rparr> = None"
proof -
  have "\<not> isl (generateExpressionTester sample_env ids_table (Some S4_expression) DNF)"
    by code_simp
  then obtain T where T: "generateExpressionTester sample_env ids_table (Some S4_expression) DNF = Inr T"
    by (cases "generateExpressionTester sample_env ids_table (Some S4_expression) DNF") auto
  have typed: "\<forall>c\<in>set S4_expression. \<forall>ru\<in>set c. rule_typed ids_table ru"
    by code_simp
  have row: "typed_row ids_table r" for r
    by (simp add: typed_row_def ids_table_def)
  have total: "\<forall>r<1000. \<exists>b. T r = Inr b"
    using tester_never_raises [OF T typed row] by blast
  have "\<not> isl (generateResultWriter sample_env False 0 result_table0 S6_description ids_table)"
    by code_simp
  then obtain W where W: "generateResultWriter sample_env False 0 result_table0 S6_description ids_table = Inr W"
    by (cases "generateResultWriter sample_env False 0 result_table0 S6_description ids_table") auto
  have tt: "\<forall>r<1000. \<forall>s. \<exists>v s'. row_test T r s = (Inr v, s')"
    using total by (auto simp: row_test_def Let_def split: prod.splits)
  have st: "stuck (row_test T) 4294967296 1000 (0, (new_Row 0 0 True, result_table0))"
    unfolding stuck_def using tt by simp
  have sl: "scan_loop (row_test T) (row_writer W) 4294967296 1000 (0, (new_Row 0 0 True, result_table0)) = None"
  proof (cases "scan_loop (row_test T) (row_writer W) 4294967296 1000 (0, (new_Row 0 0 True, result_table0))")
    case None
    then show ?thesis .
  next
    case (Some y)
    from scan_loop_stuck [OF this] st show ?thesis by contradiction
  qed
  have n: "unat (rowCount ids_table) = 1000" by (simp add: ids_table_def)
  have c: "rules S4_wrap_config = Some S4_expression" "mode S4_wrap_config = DNF"
      "resultDescription S4_wrap_config = S6_description" "rowBatchSize S4_wrap_config = 4294967296"
      "mTable ids_processor = ids_table" "mRow ids_processor = new_Row 0 0 True"
    by (simp_all add: S4_wrap_config_def S4_config_def ids_processor_def)
  show ?thesis
    unfolding process_def c using T W sl n by simp
qed

text \<open>
  C7 as stated (for a scan, whatever its batch size) fails for the batch size
  \<open>2 ^ 32\<close>, as C2 does: the scan of the table of S4 with the expression of S4 never
  returns; the rows 7, 42 and 999 are written again in every round.
\<close>

theorem S4_batch_size_wraps_counterexample:
  "process sample_env False 0 ids_processor S4_wrap_config \<lparr>cursor = 0, resultTable = result_table0\<rparr> = None"
  by (rule wrapped_S4_scan_never_returns)

text \<open>
  C6, as amended. \<open>initialize\<close> on a worker that holds a processor posts an error and
  leaves the worker as it was; \<open>processFilters\<close> on a worker that holds none posts an
  error; a message of another type posts an error. Otherwise \<open>initialize\<close> stores
  the processor the constructor returns and posts \<open>success\<close>, and when the constructor
  raises (no options, a descriptor that \<open>deserializeTable\<close> refuses, the check of
  \<open>getBinaryRow\<close>) the exception leaves the handler, nothing is posted and the worker
  is as it was; in a release build the constructor returns whenever
  \<open>deserializeTable\<close> does. \<open>processFilters\<close> posts \<open>success\<close> when \<open>process\<close>
  returns without raising; when \<open>process\<close> raises, the exception leaves the handler
  and nothing is posted; when \<open>process\<close> never returns, neither does the handler.
  Through every sequence of messages a worker that holds a processor keeps one, on the
  same table.
\<close>

theorem worker_protocol:
  "(gProcessor w = Some p \<longrightarrow>
      filterWorkerOnMessage env debug fresh (initialize opts) w =
        Some (None, w\<lparr>posted := posted w @ [reply_error ''ERROR: Worker is already initialized!'']\<rparr>))
   \<and> (gProcessor w = None \<longrightarrow>
      filterWorkerOnMessage env debug fresh (processFilters cfg) w =
        Some (None, w\<lparr>posted := posted w @ [reply_error ''ERROR: Filter.worker has not been initialized'']\<rparr>))
   \<and> filterWorkerOnMessage env debug fresh (unrecognized ty) w =
        Some (None, w\<lparr>posted := posted w @
          [reply_error (''ERROR: Unrecognized message type '' @ [CHR 0x22] @ ty @ [CHR 0x22])]\<rparr>)
   \<and> (gProcessor w = None \<and> FilterProcessor_new env debug fresh opts = Inr p1 \<longrightarrow>
      filterWorkerOnMessage env debug fresh (initialize opts) w =
        Some (None, w\<lparr>gProcessor := Some p1, posted := posted w @ [reply_success]\<rparr>))
   \<and> (gProcessor w = None \<and> FilterProcessor_new env debug fresh opts = Inl e \<longrightarrow>
      filterWorkerOnMessage env debug fresh (initialize opts) w = Some (Some e, w))
   \<and> (deserializeTable env d = Inr tbl \<longrightarrow>
      FilterProcessor_new env False fresh (Some d) =
        Inr \<lparr>mTable = tbl, mRow = \<lparr>ident = fresh, index = 0, binary = True\<rparr>\<rparr>)
   \<and> (gProcessor w = Some p \<and> process env debug fresh p cfg (memory w) = Some (None, p', mem) \<longrightarrow>
      filterWorkerOnMessage env debug fresh (processFilters cfg) w =
        Some (None, w\<lparr>gProcessor := Some p', memory := mem, posted := posted w @ [reply_success]\<rparr>))
   \<and> (gProcessor w = Some p \<and> process env debug fresh p cfg (memory w) = Some (Some e, p', mem) \<longrightarrow>
      filterWorkerOnMessage env debug fresh (processFilters cfg) w =
        Some (Some e, w\<lparr>gProcessor := Some p', memory := mem\<rparr>))
   \<and> (gProcessor w = Some p \<and> process env debug fresh p cfg (memory w) = None \<longrightarrow>
      filterWorkerOnMessage env debug fresh (processFilters cfg) w = None)
   \<and> (run_messages env debug fresh msgs w = Some w' \<and> gProcessor w = Some p \<longrightarrow>
      (\<exists>q. gProcessor w' = Some q \<and> mTable q = mTable p))"
  using run_keeps_processor [of env debug fresh msgs w w' p]
  by (auto simp: filterWorkerOnMessage_def sendError_def sendSuccess_def FilterProcessor_new_def
      getBinaryRow_def new_Row_def)

theorem worker_protocol_witness:
  "outcome (filterWorkerOnMessage sample_env False 0 (initialize (Some (TableDescriptor 0 64))) ready_worker) =
     Some (None, [reply_error ''ERROR: Worker is already initialized!''], [])
   \<and> outcome (filterWorkerOnMessage sample_env False 0 (processFilters S2_config) worker0) =
     Some (None, [reply_error ''ERROR: Filter.worker has not been initialized''], [])
   \<and> outcome (filterWorkerOnMessage sample_env False 0 (unrecognized ''ping'') worker0) =
     Some (None, [reply_error (''ERROR: Unrecognized message type '' @ [CHR 0x22] @ ''ping'' @ [CHR 0x22])], [])
   \<and> map_option (\<lambda>(e, w). (e, posted w, gProcessor w))
       (filterWorkerOnMessage sample_env False 0 (initialize (Some (TableDescriptor 0 64))) worker0) =
     Some (None, [reply_success], Some people_processor)
   \<and> map_option (\<lambda>(e, w). (e, posted w, gProcessor w))
       (filterWorkerOnMessage sample_env False 0 (initialize None) worker0) =
     Some (Some TypeError, [], None)
   \<and> map_option (\<lambda>(e, w). (e, posted w))
       (filterWorkerOnMessage sample_env False 0 (processFilters S2_config) ready_worker) =
     Some (None, [reply_success])
   \<and> map_option (\<lambda>(e, w). (e, posted w))
       (filterWorkerOnMessage sample_env False 0 (processFilters age_config) ready_worker) =
     Some (Some TypeError, [])
   \<and> filterWorkerOnMessage sample_env False 0 (processFilters S4_wrap_config) ids_worker = None
   \<and> map_option (\<lambda>w. map_option (\<lambda>q. rowCount (mTable q)) (gProcessor w))
       (run_messages sample_env False 0
          [processFilters S2_config, initialize (Some (TableDescriptor 1 64))] ready_worker) =
     Some (Some 3)"
proof -
  note wp = worker_protocol [where env = sample_env and debug = False and fresh = 0]
  have g: "gProcessor ready_worker = Some people_processor" "gProcessor worker0 = None"
      "gProcessor ids_worker = Some ids_processor"
    by (simp_all add: ready_worker_def worker0_def ids_worker_def)
  have rr: "result_rows (resultTable (memory ready_worker)) = []"
      "result_rows (resultTable (memory worker0)) = []"
      "posted ready_worker = []" "posted worker0 = []"
    by (simp_all add: ready_worker_def worker0_def result_rows_def result_table0_def)
  have w1: "outcome (filterWorkerOnMessage sample_env False 0 (initialize (Some (TableDescriptor 0 64))) ready_worker) =
     Some (None, [reply_error ''ERROR: Worker is already initialized!''], [])"
    using wp [where w = ready_worker and p = people_processor and opts = "Some (TableDescriptor 0 64)"] g rr
    by (simp add: outcome_def)
  have w2: "outcome (filterWorkerOnMessage sample_env False 0 (processFilters S2_config) worker0) =
     Some (None, [reply_error ''ERROR: Filter.worker has not been initialized''], [])"
    using wp [where w = worker0 and cfg = S2_config] g rr
    by (simp add: outcome_def)
  have w3: "outcome (filterWorkerOnMessage sample_env False 0 (unrecognized ''ping'') worker0) =
     Some (None, [reply_error (''ERROR: Unrecognized message type '' @ [CHR 0x22] @ ''ping'' @ [CHR 0x22])], [])"
    using wp [where w = worker0 and ty = "''ping''"] rr
    by (simp add: outcome_def)
  have d: "deserializeTable sample_env (TableDescriptor 0 64) = Inr people"
    by (simp add: sample_env_def sample_deserializeTable_def)
  have n: "FilterProcessor_new sample_env False 0 (Some (TableDescriptor 0 64)) = Inr people_processor"
    using wp [where d = "TableDescriptor 0 64" and tbl = people] d
    by (simp add: people_processor_def new_Row_def)
  have w4: "map_option (\<lambda>(e, w). (e, posted w, gProcessor w))
       (filterWorkerOnMessage sample_env False 0 (initialize (Some (TableDescriptor 0 64))) worker0) =
     Some (None, [reply_success], Some people_processor)"
    using wp [where w = worker0 and opts = "Some (TableDescriptor 0 64)" and ?p1.0 = people_processor] g n rr
    by simp
  have ne: "FilterProcessor_new sample_env False 0 None = Inl TypeError"
    by (simp add: FilterProcessor_new_def)
  have w5: "map_option (\<lambda>(e, w). (e, posted w, gProcessor w))
       (filterWorkerOnMessage sample_env False 0 (initialize None) worker0) =
     Some (Some TypeError, [], None)"
    using wp [where w = worker0 and opts = None and e = TypeError] g ne rr
    by simp
  have "map_option fst (process sample_env False 0 people_processor S2_config (memory ready_worker)) =
      Some None"
    by code_simp
  then obtain q mem where pr: "process sample_env False 0 people_processor S2_config (memory ready_worker) =
      Some (None, q, mem)"
    by (cases "process sample_env False 0 people_processor S2_config (memory ready_worker)") auto
  have w6: "map_option (\<lambda>(e, w). (e, posted w))
       (filterWorkerOnMessage sample_env False 0 (processFilters S2_config) ready_worker) =
     Some (None, [reply_success])"
    using wp [where w = ready_worker and p = people_processor and cfg = S2_config and p' = q and mem = mem]
      g pr rr
    by simp
  have "map_option fst (process sample_env False 0 people_processor age_config (memory ready_worker)) =
      Some (Some TypeError)"
    by code_simp
  then obtain q' mem' where pa: "process sample_env False 0 people_processor age_config (memory ready_worker) =
      Some (Some TypeError, q', mem')"
    by (cases "process sample_env False 0 people_processor age_config (memory ready_worker)") auto
  have w7: "map_option (\<lambda>(e, w). (e, posted w))
       (filterWorkerOnMessage sample_env False 0 (processFilters age_config) ready_worker) =
     Some (Some TypeError, [])"
    using wp [where w = ready_worker and p = people_processor and cfg = age_config and p' = q'
        and mem = mem' and e = TypeError] g pa rr
    by simp
  have pn: "process sample_env False 0 ids_processor S4_wrap_config (memory ids_worker) = None"
    using wrapped_S4_scan_never_returns by (simp add: ids_worker_def worker0_def)
  have w8: "filterWorkerOnMessage sample_env False 0 (processFilters S4_wrap_config) ids_worker = None"
    using wp [where w = ids_worker and p = ids_processor and cfg = S4_wrap_config] g pn
    by simp
  have "run_messages sample_env False 0
      [processFilters S2_config, initialize (Some (TableDescriptor 1 64))] ready_worker \<noteq> None"
    by code_simp
  then obtain w' where run: "run_messages sample_env False 0
      [processFilters S2_config, initialize (Some (TableDescriptor 1 64))] ready_worker = Some w'"
    by auto
  have "\<exists>q. gProcessor w' = Some q \<and> mTable q = mTable people_processor"
    using wp [where w = ready_worker
        and msgs = "[processFilters S2_config, initialize (Some (TableDescriptor 1 64))]"
        and w' = w' and p = people_processor] run g
    by blast
  then have w9: "map_option (\<lambda>w. map_option (\<lambda>q. rowCount (mTable q)) (gProcessor w))
       (run_messages sample_env False 0
          [processFilters S2_config, initialize (Some (TableDescriptor 1 64))] ready_worker) =
     Some (Some 3)"
    using run by (auto simp: people_processor_def people_def)
  from w1 w2 w3 w4 w5 w6 w7 w8 w9 show ?thesis by blast
qed

text \<open>
  C6 as stated fails on a \<open>processFilters\<close> message whose rule names a column the
  table does not have, sent to a worker that holds a processor: compiling the tester
  raises a TypeError, the scan does not run, and no reply is posted.
\<close>

theorem raising_scan_counterexample:
  "outcome (filterWorkerOnMessage sample_env False 0 (processFilters age_config) ready_worker) =
     Some (Some TypeError, [], [])"
  by code_simp

end
